theory Spec2Isabelle
  imports Complex_Main "HOL-Library.Sublist"
begin

section \<open>The scraper's extraction engine (src/index.js)\<close>

text \<open>
  The development embeds the functions of \<^verbatim>\<open>src/index.js\<close> one by one, under their own
  names, and proves the properties the specification states about them.

  Conventions of the embedding.
  \<^item> A JavaScript string is a \<^typ>\<open>string\<close> holding its UTF-8 bytes. The source only searches
    for fixed substrings, filters by ASCII character classes, compares positions of ASCII
    characters, maps letter case and trims white space. Substring search, filtering,
    positions and trimming read the same on the bytes of a well-formed string as on its
    code units; letter case is mapped on the ASCII letters (see \<open>toUpperCase\<close>).
  \<^item> \<^verbatim>\<open>undefined\<close> is \<open>None\<close>; a value that can be \<^verbatim>\<open>null\<close> is an option or the constructor
    \<open>JNull\<close>.
  \<^item> Every \<^verbatim>\<open>throw\<close> is a value \<open>Inl e\<close>; a \<^verbatim>\<open>try\<close>/\<^verbatim>\<open>catch\<close> is a case distinction on it.
  \<^item> What the source takes from its platform and its libraries without defining it
    (\<^verbatim>\<open>cheerio.load\<close> and its selectors, \<^verbatim>\<open>JSON.parse\<close>, \<^verbatim>\<open>new URL(..).toString()\<close>, the
    printing of a number) is a field of the record \<open>runtime\<close>; every theorem holds for every
    runtime unless it states what it needs of one.
\<close>

subsection \<open>Strings\<close>

text \<open>
  The white space \<^verbatim>\<open>String.prototype.trim\<close> removes: the code points of WhiteSpace and
  LineTerminator (TAB, LF, VT, FF, CR, SP, U+00A0, U+1680, U+2000 to U+200A, U+2028, U+2029,
  U+202F, U+205F, U+3000, U+FEFF), each as its UTF-8 bytes.
\<close>

definition js_whitespace :: "string list" where
  "js_whitespace =
    [ [CHR 0x09], [CHR 0x0A], [CHR 0x0B], [CHR 0x0C], [CHR 0x0D], [CHR 0x20],
      [CHR 0xC2, CHR 0xA0],
      [CHR 0xE1, CHR 0x9A, CHR 0x80],
      [CHR 0xE2, CHR 0x80, CHR 0x80], [CHR 0xE2, CHR 0x80, CHR 0x81],
      [CHR 0xE2, CHR 0x80, CHR 0x82], [CHR 0xE2, CHR 0x80, CHR 0x83],
      [CHR 0xE2, CHR 0x80, CHR 0x84], [CHR 0xE2, CHR 0x80, CHR 0x85],
      [CHR 0xE2, CHR 0x80, CHR 0x86], [CHR 0xE2, CHR 0x80, CHR 0x87],
      [CHR 0xE2, CHR 0x80, CHR 0x88], [CHR 0xE2, CHR 0x80, CHR 0x89],
      [CHR 0xE2, CHR 0x80, CHR 0x8A],
      [CHR 0xE2, CHR 0x80, CHR 0xA8], [CHR 0xE2, CHR 0x80, CHR 0xA9],
      [CHR 0xE2, CHR 0x80, CHR 0xAF],
      [CHR 0xE2, CHR 0x81, CHR 0x9F],
      [CHR 0xE3, CHR 0x80, CHR 0x80],
      [CHR 0xEF, CHR 0xBB, CHR 0xBF] ]"

text \<open>Removes, from the front of \<open>s\<close>, every leading occurrence of a sequence of \<open>ws\<close>.\<close>

function strip_leading :: "string list \<Rightarrow> string \<Rightarrow> string" where
  "strip_leading ws s =
     (case find (\<lambda>w. w \<noteq> [] \<and> prefix w s) ws of
        None \<Rightarrow> s
      | Some w \<Rightarrow> strip_leading ws (drop (length w) s))"
  by pat_completeness auto
termination
proof (relation "measure (\<lambda>(ws, s). length s)")
  show "wf (measure (\<lambda>(ws, s). length s))" by simp
next
  fix ws :: "string list" and s w :: string
  assume "find (\<lambda>w. w \<noteq> [] \<and> prefix w s) ws = Some w"
  then have "w \<noteq> []" and "prefix w s"
    by (auto simp: find_Some_iff)
  then have "s \<noteq> []" by auto
  with \<open>w \<noteq> []\<close> show "((ws, drop (length w) s), (ws, s)) \<in> measure (\<lambda>(ws, s). length s)"
    by simp
qed

declare strip_leading.simps [simp del]

definition trimStart :: "string \<Rightarrow> string" where
  "trimStart s = strip_leading js_whitespace s"

definition trimEnd :: "string \<Rightarrow> string" where
  "trimEnd s = rev (strip_leading (map rev js_whitespace) (rev s))"

text \<open>\<^verbatim>\<open>s.trim()\<close>\<close>

definition trim :: "string \<Rightarrow> string" where
  "trim s = trimEnd (trimStart s)"

text \<open>
  \<^verbatim>\<open>s.toUpperCase()\<close> and \<^verbatim>\<open>s.toLowerCase()\<close>, on the ASCII letters; every other byte is kept.
  The source compares the results only with the ASCII words EUR, USD, GBP and product. (The
  platform also maps letters outside ASCII, to letters outside ASCII but for a few; of
  those few only U+017F, the long s, whose upper case is S, yields a letter of these words.)
\<close>

definition upper_char :: "char \<Rightarrow> char" where
  "upper_char c =
     (case map_of (zip ''abcdefghijklmnopqrstuvwxyz'' ''ABCDEFGHIJKLMNOPQRSTUVWXYZ'') c of
        Some u \<Rightarrow> u | None \<Rightarrow> c)"

definition lower_char :: "char \<Rightarrow> char" where
  "lower_char c =
     (case map_of (zip ''ABCDEFGHIJKLMNOPQRSTUVWXYZ'' ''abcdefghijklmnopqrstuvwxyz'') c of
        Some l \<Rightarrow> l | None \<Rightarrow> c)"

definition toUpperCase :: "string \<Rightarrow> string" where
  "toUpperCase s = map upper_char s"

definition toLowerCase :: "string \<Rightarrow> string" where
  "toLowerCase s = map lower_char s"

text \<open>\<^verbatim>\<open>s.includes(p)\<close>: \<open>p\<close> occurs in \<open>s\<close> as a contiguous substring.\<close>

fun js_includes :: "string \<Rightarrow> string \<Rightarrow> bool" where
  "js_includes [] p = (p = [])"
| "js_includes (c # cs) p = (prefix p (c # cs) \<or> js_includes cs p)"

text \<open>\<^verbatim>\<open>s.lastIndexOf(c)\<close> for a one-character \<open>c\<close>: the last position of \<open>c\<close>, or \<open>-1\<close>.\<close>

fun lastIndexOf :: "string \<Rightarrow> char \<Rightarrow> int" where
  "lastIndexOf [] c = - 1"
| "lastIndexOf (x # xs) c =
     (let r = lastIndexOf xs c in if r \<noteq> - 1 then r + 1 else if x = c then 0 else - 1)"

text \<open>
  \<^verbatim>\<open>s.replace(a, b)\<close> with one-character strings \<open>a\<close> and \<open>b\<close>: only the first occurrence of
  \<open>a\<close> is replaced. (\<^verbatim>\<open>s.replace(/a/g, "")\<close>, which removes every occurrence, is a \<open>filter\<close>.)
\<close>

fun replace_first :: "char \<Rightarrow> char \<Rightarrow> string \<Rightarrow> string" where
  "replace_first a b [] = []"
| "replace_first a b (x # xs) = (if x = a then b # xs else x # replace_first a b xs)"

text \<open>The Euro and pound signs of the source text, as their UTF-8 bytes.\<close>

definition euro_sign :: string where
  "euro_sign = [CHR 0xE2, CHR 0x82, CHR 0xAC]"

definition pound_sign :: string where
  "pound_sign = [CHR 0xC2, CHR 0xA3]"

subsection \<open>Numbers\<close>

text \<open>
  A JavaScript number is a double. In a parsed JSON value, \<open>Finite q\<close> is the finite double
  of value \<open>q\<close>. The number \<^verbatim>\<open>Number(s)\<close> reads from a decimal text is carried as the decimal
  value \<open>q\<close> of the text and stands for the double nearest to \<open>q\<close>: the source only asks
  whether it is finite and returns it, so the rounding is modelled only where it decides
  finiteness.
\<close>

datatype jsnum = Finite rat | PosInf | NegInf | NaN

definition is_digit :: "char \<Rightarrow> bool" where
  "is_digit c = (c \<in> set ''0123456789'')"

definition digits_value :: "string \<Rightarrow> nat" where
  "digits_value ds = foldl (\<lambda>a c. 10 * a + (of_char c - 48)) 0 ds"

text \<open>
  A decimal value rounds to \<^verbatim>\<open>Infinity\<close> from the midpoint between the largest double and
  \<open>2 ^ 1024\<close> on.
\<close>

definition double_overflow :: rat where
  "double_overflow = 2 ^ 1024 - 2 ^ 970"

text \<open>
  \<^verbatim>\<open>Number(s)\<close> for the strings \<^verbatim>\<open>toNumberOrNull\<close> passes to it, which hold digits, periods
  and commas only (lemma \<open>normalized_alphabet\<close> below): the string is a number when it is
  digits with at most one period and at least one digit, and \<^verbatim>\<open>NaN\<close> otherwise. Signs,
  exponents, radix prefixes, \<^verbatim>\<open>Infinity\<close> and surrounding white space need a character that
  cannot occur there.
\<close>

definition Number_of_string :: "string \<Rightarrow> jsnum" where
  "Number_of_string s =
     (if s = [] then Finite 0
      else
        (let ip = takeWhile (\<lambda>c. c \<noteq> CHR ''.'') s;
             fp = (case dropWhile (\<lambda>c. c \<noteq> CHR ''.'') s of [] \<Rightarrow> [] | dot # ds \<Rightarrow> ds)
         in if list_all is_digit ip \<and> list_all is_digit fp \<and> (ip \<noteq> [] \<or> fp \<noteq> [])
            then (let q = of_nat (digits_value ip) + of_nat (digits_value fp) / 10 ^ length fp
                  in if q < double_overflow then Finite q else PosInf)
            else NaN))"

subsection \<open>Values, errors and the runtime\<close>

datatype js_error = TypeError | SyntaxError

text \<open>
  What \<^verbatim>\<open>JSON.parse\<close> returns. An object is the list of its own properties; a property is
  read with \<open>map_of\<close>.
\<close>

datatype json =
    JNull
  | JBool bool
  | JNum jsnum
  | JStr string
  | JArr "json list"
  | JObj "(string \<times> json) list"

text \<open>
  What the source reads of the document \<^verbatim>\<open>$ = cheerio.load(html)\<close>, one field for each
  selector expression of \<^verbatim>\<open>parseFromHtml\<close>. An \<^verbatim>\<open>.attr("content")\<close> is \<open>None\<close> when no
  element matches or the first match has no such attribute; a \<^verbatim>\<open>.text()\<close> is a string.

  \<^item> \<open>ld_json_scripts\<close>: \<^verbatim>\<open>$('script[type="application/ld+json"]').map((_, el) => $(el).text()).get()\<close>
  \<^item> \<open>og_title\<close>: \<^verbatim>\<open>$('meta[property="og:title"]').attr("content")\<close>
  \<^item> \<open>twitter_title\<close>: \<^verbatim>\<open>$('meta[name="twitter:title"]').attr("content")\<close>
  \<^item> \<open>title_text\<close>: \<^verbatim>\<open>$("title").text()\<close>
  \<^item> \<open>og_image\<close>: \<^verbatim>\<open>$('meta[property="og:image"]').attr("content")\<close>
  \<^item> \<open>twitter_image\<close>: \<^verbatim>\<open>$('meta[name="twitter:image"]').attr("content")\<close>
  \<^item> \<open>price_amount_property\<close>: \<^verbatim>\<open>$('meta[property="product:price:amount"]').attr("content")\<close>
  \<^item> \<open>price_amount_name\<close>: \<^verbatim>\<open>$('meta[name="product:price:amount"]').attr("content")\<close>
  \<^item> \<open>itemprop_price_content\<close>: \<^verbatim>\<open>$('[itemprop="price"]').attr("content")\<close>
  \<^item> \<open>itemprop_price_text\<close>: \<^verbatim>\<open>$('[itemprop="price"]').first().text()\<close>
  \<^item> \<open>price_currency_property\<close>: \<^verbatim>\<open>$('meta[property="product:price:currency"]').attr("content")\<close>
  \<^item> \<open>price_currency_name\<close>: \<^verbatim>\<open>$('meta[name="product:price:currency"]').attr("content")\<close>
  \<^item> \<open>itemprop_currency_content\<close>: \<^verbatim>\<open>$('[itemprop="priceCurrency"]').attr("content")\<close>
  \<^item> \<open>itemprop_currency_text\<close>: \<^verbatim>\<open>$('[itemprop="priceCurrency"]').first().text()\<close>
\<close>

record page =
  ld_json_scripts :: "string list"
  og_title :: "string option"
  twitter_title :: "string option"
  title_text :: string
  og_image :: "string option"
  twitter_image :: "string option"
  price_amount_property :: "string option"
  price_amount_name :: "string option"
  itemprop_price_content :: "string option"
  itemprop_price_text :: string
  price_currency_property :: "string option"
  price_currency_name :: "string option"
  itemprop_currency_content :: "string option"
  itemprop_currency_text :: string

text \<open>
  The platform and library functions the source calls.
  \<^item> \<open>cheerio_load html\<close>: the document, as the selector results above.
  \<^item> \<open>JSON_parse raw\<close>: the value, or the \<^verbatim>\<open>SyntaxError\<close> thrown.
  \<^item> \<open>URL_href ref base\<close>: \<^verbatim>\<open>new URL(ref, base).toString()\<close>, or the \<^verbatim>\<open>TypeError\<close> thrown.
  \<^item> \<open>Number_toString q\<close>: the text \<^verbatim>\<open>String\<close> prints for the finite number \<open>q\<close>.
\<close>

record runtime =
  cheerio_load :: "string \<Rightarrow> page"
  JSON_parse :: "string \<Rightarrow> js_error + json"
  URL_href :: "string \<Rightarrow> string \<Rightarrow> js_error + string"
  Number_toString :: "rat \<Rightarrow> string"

text \<open>The truth value of \<^verbatim>\<open>if (v)\<close> and \<^verbatim>\<open>!v\<close>.\<close>

fun truthy :: "json \<Rightarrow> bool" where
  "truthy JNull = False"
| "truthy (JBool b) = b"
| "truthy (JNum x) = (case x of Finite q \<Rightarrow> q \<noteq> 0 | NaN \<Rightarrow> False | _ \<Rightarrow> True)"
| "truthy (JStr s) = (s \<noteq> '''')"
| "truthy (JArr xs) = True"
| "truthy (JObj kv) = True"

text \<open>
  \<^verbatim>\<open>v.k\<close> and \<^verbatim>\<open>v?.k\<close> for the property names the source reads (\<^verbatim>\<open>name\<close>, \<^verbatim>\<open>image\<close>,
  \<^verbatim>\<open>offers\<close>, \<^verbatim>\<open>price\<close>, ...): an own property of an object; none of them is a property of a
  string, a number, a boolean, an array or of \<^verbatim>\<open>Object.prototype\<close>.
\<close>

fun get_prop :: "json \<Rightarrow> string \<Rightarrow> json option" where
  "get_prop (JObj kv) k = map_of kv k"
| "get_prop v k = None"

text \<open>\<^verbatim>\<open>a ?? b\<close>\<close>

definition nullish_or :: "json option \<Rightarrow> json option \<Rightarrow> json option" where
  "nullish_or a b = (case a of None \<Rightarrow> b | Some JNull \<Rightarrow> b | Some v \<Rightarrow> a)"

text \<open>
  \<^verbatim>\<open>String(v)\<close>. An array is joined with commas, \<^verbatim>\<open>null\<close> elements printing as the empty
  string. An object prints as \<^verbatim>\<open>[object Object]\<close> through \<^verbatim>\<open>Object.prototype.toString\<close>,
  unless it has an own property \<^verbatim>\<open>toString\<close>: a parsed value is never callable, and the
  conversion throws a \<^verbatim>\<open>TypeError\<close>.
\<close>

fun js_String :: "runtime \<Rightarrow> json \<Rightarrow> js_error + string"
and js_join :: "runtime \<Rightarrow> json list \<Rightarrow> js_error + string" where
  "js_String rt JNull = Inr ''null''"
| "js_String rt (JBool b) = Inr (if b then ''true'' else ''false'')"
| "js_String rt (JNum x) =
     Inr (case x of Finite q \<Rightarrow> Number_toString rt q | PosInf \<Rightarrow> ''Infinity''
          | NegInf \<Rightarrow> ''-Infinity'' | NaN \<Rightarrow> ''NaN'')"
| "js_String rt (JStr s) = Inr s"
| "js_String rt (JArr xs) = js_join rt xs"
| "js_String rt (JObj kv) =
     (if map_of kv ''toString'' \<noteq> None then Inl TypeError else Inr ''[object Object]'')"
| "js_join rt [] = Inr ''''"
| "js_join rt (x # xs) =
     (case (case x of JNull \<Rightarrow> Inr '''' | _ \<Rightarrow> js_String rt x) of
        Inl e \<Rightarrow> Inl e
      | Inr s \<Rightarrow>
          (if xs = [] then Inr s
           else (case js_join rt xs of Inl e \<Rightarrow> Inl e | Inr r \<Rightarrow> Inr (s @ '','' @ r))))"

subsection \<open>The helper functions\<close>

text \<open>
  \<^verbatim>\<open>pickFirst(...vals)\<close>: the first argument that is not empty once trimmed, trimmed. Every
  call passes strings or \<^verbatim>\<open>undefined\<close>.
\<close>

fun pickFirst :: "string option list \<Rightarrow> string" where
  "pickFirst [] = ''''"
| "pickFirst (v # vals) =
     (let s = trim (case v of None \<Rightarrow> '''' | Some x \<Rightarrow> x)
      in if s \<noteq> '''' then s else pickFirst vals)"

text \<open>\<^verbatim>\<open>absUrl(base, maybe)\<close>: the \<^verbatim>\<open>TypeError\<close> of an unparsable reference or base is caught.\<close>

definition absUrl :: "runtime \<Rightarrow> string \<Rightarrow> string \<Rightarrow> string" where
  "absUrl rt base maybe =
     (if maybe = '''' then ''''
      else (case URL_href rt maybe base of Inl e \<Rightarrow> '''' | Inr href \<Rightarrow> href))"

text \<open>\<^verbatim>\<open>Number.isFinite(x) ? x : null\<close>\<close>

definition finite_or_null :: "jsnum \<Rightarrow> rat option" where
  "finite_or_null x = (case x of Finite q \<Rightarrow> Some q | _ \<Rightarrow> None)"

text \<open>
  The value of the variable \<^verbatim>\<open>normalized\<close> of \<^verbatim>\<open>toNumberOrNull\<close> for a value of \<^verbatim>\<open>cleaned\<close>:
  \<^verbatim>\<open>const lastComma = cleaned.lastIndexOf(","); const lastDot = cleaned.lastIndexOf(".");\<close>
  \<^verbatim>\<open>if (lastComma !== -1 && lastDot !== -1) {\<close>
  \<^verbatim>\<open>  const decSep = lastComma > lastDot ? "," : ".";\<close>
  \<^verbatim>\<open>  normalized = cleaned.replace(decSep === "," ? /\./g : /,/g, "").replace(decSep, ".");\<close>
  \<^verbatim>\<open>} else { normalized = cleaned.replace(",", "."); }\<close>
\<close>

definition normalized :: "string \<Rightarrow> string" where
  "normalized cleaned =
     (let lastComma = lastIndexOf cleaned (CHR '','');
          lastDot = lastIndexOf cleaned (CHR ''.'')
      in if lastComma \<noteq> - 1 \<and> lastDot \<noteq> - 1
         then (let decSep = (if lastComma > lastDot then CHR '','' else CHR ''.'')
               in replace_first decSep (CHR ''.'')
                    (if decSep = CHR '','' then filter (\<lambda>c. c \<noteq> CHR ''.'') cleaned
                     else filter (\<lambda>c. c \<noteq> CHR '','') cleaned))
         else replace_first (CHR '','') (CHR ''.'') cleaned)"

text \<open>
  \<^verbatim>\<open>toNumberOrNull(v)\<close>. The result \<open>None\<close> is \<^verbatim>\<open>null\<close>. \<^verbatim>\<open>String(v)\<close> can throw.
  \<^verbatim>\<open>cleaned\<close> is \<^verbatim>\<open>s.replace(/[^\d.,]/g, "")\<close>.
\<close>

definition toNumberOrNull :: "runtime \<Rightarrow> json option \<Rightarrow> js_error + rat option" where
  "toNumberOrNull rt v =
     (case v of
        None \<Rightarrow> Inr None
      | Some JNull \<Rightarrow> Inr None
      | Some (JNum x) \<Rightarrow> Inr (finite_or_null x)
      | Some w \<Rightarrow>
          (case js_String rt w of
             Inl e \<Rightarrow> Inl e
           | Inr str \<Rightarrow>
               (let s = trim str in
                if s = '''' then Inr None
                else
                  (let cleaned = filter (\<lambda>c. is_digit c \<or> c = CHR ''.'' \<or> c = CHR '','') s in
                   if cleaned = '''' then Inr None
                   else
                     (let num = Number_of_string (normalized cleaned)
                      in Inr (finite_or_null num))))))"

text \<open>\<^verbatim>\<open>extractCurrencyLoose(s)\<close>, called with a string.\<close>

definition extractCurrencyLoose :: "string \<Rightarrow> string option" where
  "extractCurrencyLoose s =
     (let up = toUpperCase (if s \<noteq> '''' then s else '''') in
      if js_includes up ''EUR'' \<or> js_includes s euro_sign then Some ''EUR''
      else if js_includes up ''USD'' \<or> js_includes s ''$'' then Some ''USD''
      else if js_includes up ''GBP'' \<or> js_includes s pound_sign then Some ''GBP''
      else None)"

text \<open>
  \<^verbatim>\<open>flattenJsonLd(input)\<close>: \<open>walk node\<close> is the list of the nodes \<^verbatim>\<open>walk(node)\<close> pushes to
  \<^verbatim>\<open>out\<close>, in order. A parsed value is a finite tree, so the recursion ends.
\<close>

function walk :: "json \<Rightarrow> json list" where
  "walk node =
     (if \<not> truthy node then []
      else case node of
        JArr xs \<Rightarrow> concat (map walk xs)
      | JObj kv \<Rightarrow>
          node
          # (case map_of kv ''@graph'' of Some v \<Rightarrow> if truthy v then walk v else [] | None \<Rightarrow> [])
          @ (case map_of kv ''graph'' of Some v \<Rightarrow> if truthy v then walk v else [] | None \<Rightarrow> [])
          @ (case map_of kv ''mainEntity'' of Some v \<Rightarrow> if truthy v then walk v else [] | None \<Rightarrow> [])
          @ (case map_of kv ''itemListElement'' of Some v \<Rightarrow> if truthy v then walk v else [] | None \<Rightarrow> [])
          @ (case map_of kv ''offers'' of Some v \<Rightarrow> if truthy v then walk v else [] | None \<Rightarrow> [])
      | _ \<Rightarrow> [])"
  by pat_completeness auto
termination
proof (relation "measure size")
  have member: "size v < size (JObj kv)"
    if "map_of kv k = Some v" for kv :: "(string \<times> json) list" and k v
  proof -
    from that have "(k, v) \<in> set kv" by (rule map_of_SomeD)
    then have "size v < Suc (size_list (size_prod (\<lambda>x. 0) size) kv)"
      by (induction kv) auto
    then show ?thesis by simp
  qed
  show "wf (measure (size :: json \<Rightarrow> nat))" by simp
  show "(x, node) \<in> measure size" if "node = JArr xs" "x \<in> set xs" for node xs and x :: json
    using that by (auto simp: less_Suc_eq_le size_list_estimation')
  show "(v, node) \<in> measure size" if "node = JObj kv" "map_of kv ''@graph'' = Some v"
    for node kv v using that member by simp
  show "(v, node) \<in> measure size" if "node = JObj kv" "map_of kv ''graph'' = Some v"
    for node kv v using that member by simp
  show "(v, node) \<in> measure size" if "node = JObj kv" "map_of kv ''mainEntity'' = Some v"
    for node kv v using that member by simp
  show "(v, node) \<in> measure size" if "node = JObj kv" "map_of kv ''itemListElement'' = Some v"
    for node kv v using that member by simp
  show "(v, node) \<in> measure size" if "node = JObj kv" "map_of kv ''offers'' = Some v"
    for node kv v using that member by simp
qed

declare walk.simps [simp del]

definition flattenJsonLd :: "json \<Rightarrow> json list" where
  "flattenJsonLd input = walk input"

text \<open>\<^verbatim>\<open>raw.map(String)\<close>: stops at the first element whose conversion throws.\<close>

fun map_String :: "runtime \<Rightarrow> json list \<Rightarrow> js_error + string list" where
  "map_String rt [] = Inr []"
| "map_String rt (x # xs) =
     (case js_String rt x of
        Inl e \<Rightarrow> Inl e
      | Inr s \<Rightarrow> (case map_String rt xs of Inl e \<Rightarrow> Inl e | Inr ss \<Rightarrow> Inr (s # ss)))"

text \<open>\<^verbatim>\<open>isType(node, t)\<close>\<close>

definition isType :: "runtime \<Rightarrow> json \<Rightarrow> string \<Rightarrow> js_error + bool" where
  "isType rt node t =
     (let want = toLowerCase t in
      case get_prop node ''@type'' of
        None \<Rightarrow> Inr False
      | Some raw \<Rightarrow>
          if \<not> truthy raw then Inr False
          else (case raw of
                  JStr s \<Rightarrow> Inr (toLowerCase s = want)
                | JArr xs \<Rightarrow>
                    (case map_String rt xs of
                       Inl e \<Rightarrow> Inl e
                     | Inr ss \<Rightarrow> Inr (list_ex (\<lambda>x. toLowerCase x = want) ss))
                | _ \<Rightarrow> Inr False))"

subsection \<open>parseFromHtml\<close>

text \<open>
  The four variables \<^verbatim>\<open>title\<close>, \<^verbatim>\<open>imageUrl\<close>, \<^verbatim>\<open>price\<close>, \<^verbatim>\<open>currency\<close> of \<^verbatim>\<open>parseFromHtml\<close>, and
  the object it returns, which has the same four fields.
\<close>

record product =
  title :: string
  imageUrl :: string
  price :: "rat option"
  currency :: "string option"

text \<open>\<^verbatim>\<open>nodes.filter((n) => isType(n, "Product"))\<close>\<close>

fun filter_products :: "runtime \<Rightarrow> json list \<Rightarrow> js_error + json list" where
  "filter_products rt [] = Inr []"
| "filter_products rt (n # ns) =
     (case isType rt n ''Product'' of
        Inl e \<Rightarrow> Inl e
      | Inr b \<Rightarrow>
          (case filter_products rt ns of
             Inl e \<Rightarrow> Inl e
           | Inr ps \<Rightarrow> Inr (if b then n # ps else ps)))"

text \<open>
  The body of the loop over the candidates, statement by statement. Each statement takes the
  variables and returns them updated; one that can throw returns the variables as they are
  at the throw.

  \<^verbatim>\<open>if (!title && n?.name) title = String(n.name).trim();\<close>
\<close>

definition set_title :: "runtime \<Rightarrow> product \<Rightarrow> json \<Rightarrow> product \<times> js_error option" where
  "set_title rt st n =
     (case get_prop n ''name'' of
        None \<Rightarrow> (st, None)
      | Some nm \<Rightarrow>
          if title st = '''' \<and> truthy nm
          then (case js_String rt nm of
                  Inl e \<Rightarrow> (st, Some e)
                | Inr s \<Rightarrow> (st\<lparr>title := trim s\<rparr>, None))
          else (st, None))"

text \<open>
  \<^verbatim>\<open>if (!imageUrl) { const img = n?.image; if (typeof img === "string") imageUrl = img;\<close>
  \<^verbatim>\<open>if (Array.isArray(img) && typeof img[0] === "string") imageUrl = img[0]; }\<close>
\<close>

definition set_image :: "product \<Rightarrow> json \<Rightarrow> product" where
  "set_image st n =
     (if imageUrl st = ''''
      then (case get_prop n ''image'' of
              Some (JStr img) \<Rightarrow> st\<lparr>imageUrl := img\<rparr>
            | Some (JArr (JStr img0 # rest)) \<Rightarrow> st\<lparr>imageUrl := img0\<rparr>
            | _ \<Rightarrow> st)
      else st)"

text \<open>
  \<^verbatim>\<open>const offers = n?.offers; const offer = Array.isArray(offers) ? offers[0] : offers;\<close>
\<close>

definition offer_of :: "json \<Rightarrow> json option" where
  "offer_of n =
     (case get_prop n ''offers'' of
        Some (JArr offers) \<Rightarrow> (case offers of [] \<Rightarrow> None | offer # rest \<Rightarrow> Some offer)
      | offers \<Rightarrow> offers)"

text \<open>
  \<^verbatim>\<open>if (price == null && offer) {\<close>
  \<^verbatim>\<open>  price = toNumberOrNull(offer?.price ?? offer?.lowPrice ?? offer?.highPrice);\<close>
  \<^verbatim>\<open>  const cur = offer?.priceCurrency ? String(offer.priceCurrency) : null;\<close>
  \<^verbatim>\<open>  if (!currency && cur) currency = cur; }\<close>
\<close>

definition set_offer :: "runtime \<Rightarrow> product \<Rightarrow> json \<Rightarrow> product \<times> js_error option" where
  "set_offer rt st n =
     (case offer_of n of
        None \<Rightarrow> (st, None)
      | Some offer \<Rightarrow>
          if price st = None \<and> truthy offer
          then (case toNumberOrNull rt
                       (nullish_or (get_prop offer ''price'')
                          (nullish_or (get_prop offer ''lowPrice'') (get_prop offer ''highPrice''))) of
                  Inl e \<Rightarrow> (st, Some e)
                | Inr p \<Rightarrow>
                    (let st1 = st\<lparr>price := p\<rparr> in
                     case (case get_prop offer ''priceCurrency'' of
                             None \<Rightarrow> Inr None
                           | Some pc \<Rightarrow>
                               if truthy pc
                               then (case js_String rt pc of Inl e \<Rightarrow> Inl e | Inr s \<Rightarrow> Inr (Some s))
                               else Inr None) of
                       Inl e \<Rightarrow> (st1, Some e)
                     | Inr cur \<Rightarrow>
                         (if (currency st1 = None \<or> currency st1 = Some '''')
                             \<and> cur \<noteq> None \<and> cur \<noteq> Some ''''
                          then st1\<lparr>currency := cur\<rparr> else st1, None)))
          else (st, None))"

text \<open>How one pass through the loop body ends.\<close>

datatype completion = Normal | Break | Throw js_error

text \<open>
  The loop body for the candidate \<open>n\<close>; its last statement is
  \<^verbatim>\<open>if (title && imageUrl && price != null) break;\<close>
\<close>

definition visit :: "runtime \<Rightarrow> product \<Rightarrow> json \<Rightarrow> product \<times> completion" where
  "visit rt st n =
     (case set_title rt st n of
        (st1, Some e) \<Rightarrow> (st1, Throw e)
      | (st1, None) \<Rightarrow>
          (let st2 = set_image st1 n in
           case set_offer rt st2 n of
             (st3, Some e) \<Rightarrow> (st3, Throw e)
           | (st3, None) \<Rightarrow>
               (st3, if title st3 \<noteq> '''' \<and> imageUrl st3 \<noteq> '''' \<and> price st3 \<noteq> None
                     then Break else Normal)))"

text \<open>
  \<^verbatim>\<open>for (const n of candidates) { ... }\<close>: the variables after the loop, and the error when a
  candidate threw.
\<close>

fun scan :: "runtime \<Rightarrow> product \<Rightarrow> json list \<Rightarrow> product \<times> js_error option" where
  "scan rt st [] = (st, None)"
| "scan rt st (n # ns) =
     (case visit rt st n of
        (st', Normal) \<Rightarrow> scan rt st' ns
      | (st', Break) \<Rightarrow> (st', None)
      | (st', Throw e) \<Rightarrow> (st', Some e))"

text \<open>
  The \<^verbatim>\<open>try { ... } catch {}\<close> for one script text: the variables after it. Whatever is
  thrown inside is dropped; what was assigned before the throw stays.
\<close>

definition script_block :: "runtime \<Rightarrow> product \<Rightarrow> string \<Rightarrow> product" where
  "script_block rt st raw =
     (case JSON_parse rt raw of
        Inl e \<Rightarrow> st
      | Inr json \<Rightarrow>
          (let nodes = flattenJsonLd json in
           case filter_products rt nodes of
             Inl e \<Rightarrow> st
           | Inr products \<Rightarrow>
               (let candidates = (if products \<noteq> [] then products else nodes)
                in fst (scan rt st candidates))))"

text \<open>\<^verbatim>\<open>for (const raw of scripts) { ... }\<close>, from the initial values of the four variables.\<close>

definition initial :: product where
  "initial = \<lparr>title = '''', imageUrl = '''', price = None, currency = None\<rparr>"

definition json_ld :: "runtime \<Rightarrow> string list \<Rightarrow> product" where
  "json_ld rt scripts = foldl (script_block rt) initial scripts"

text \<open>The four strings of the fallback: \<^verbatim>\<open>ogTitle\<close>, \<^verbatim>\<open>ogImage\<close>, \<^verbatim>\<open>metaPrice\<close>, \<^verbatim>\<open>metaCurrency\<close>.\<close>

definition ogTitle :: "page \<Rightarrow> string" where
  "ogTitle pg = pickFirst [og_title pg, twitter_title pg, Some (title_text pg)]"

definition ogImage :: "page \<Rightarrow> string" where
  "ogImage pg = pickFirst [og_image pg, twitter_image pg]"

definition metaPrice :: "page \<Rightarrow> string" where
  "metaPrice pg =
     pickFirst [price_amount_property pg, price_amount_name pg,
                itemprop_price_content pg, Some (itemprop_price_text pg)]"

definition metaCurrency :: "page \<Rightarrow> string" where
  "metaCurrency pg =
     pickFirst [price_currency_property pg, price_currency_name pg,
                itemprop_currency_content pg, Some (itemprop_currency_text pg)]"

text \<open>\<^verbatim>\<open>a || b\<close> where \<open>a\<close> and \<open>b\<close> are a string or \<^verbatim>\<open>null\<close>.\<close>

definition or_else :: "string option \<Rightarrow> string option \<Rightarrow> string option" where
  "or_else a b = (case a of None \<Rightarrow> b | Some s \<Rightarrow> if s \<noteq> '''' then a else b)"

text \<open>
  The last statements of \<^verbatim>\<open>parseFromHtml\<close>, from \<^verbatim>\<open>const finalTitle\<close> to the \<^verbatim>\<open>return\<close>, as
  a function of the URL, the four variables and the four fallback strings.
\<close>

definition merge ::
  "runtime \<Rightarrow> string \<Rightarrow> product \<Rightarrow> string \<Rightarrow> string \<Rightarrow> string \<Rightarrow> string \<Rightarrow> js_error + product" where
  "merge rt url st og_t og_i meta_p meta_c =
     (let finalTitle = pickFirst [Some (title st), Some og_t];
          finalImage = absUrl rt url (pickFirst [Some (imageUrl st), Some og_i])
      in case (case price st of
                 Some p \<Rightarrow> Inr (Some p)
               | None \<Rightarrow> toNumberOrNull rt (Some (JStr meta_p))) of
           Inl e \<Rightarrow> Inl e
         | Inr finalPrice \<Rightarrow>
             (let finalCurrency =
                    or_else (or_else (currency st)
                                     (if meta_c \<noteq> '''' then Some (trim meta_c) else None))
                            (extractCurrencyLoose (if meta_p \<noteq> '''' then meta_p else ''''))
              in Inr \<lparr>title = finalTitle, imageUrl = finalImage,
                       price = finalPrice, currency = finalCurrency\<rparr>))"

text \<open>\<^verbatim>\<open>parseFromHtml(url, html)\<close>: the record it returns, or the error that escapes it.\<close>

definition parseFromHtml :: "runtime \<Rightarrow> string \<Rightarrow> string \<Rightarrow> js_error + product" where
  "parseFromHtml rt url html =
     (let pg = cheerio_load rt html;
          st = json_ld rt (ld_json_scripts pg)
      in merge rt url st (ogTitle pg) (ogImage pg) (metaPrice pg) (metaCurrency pg))"

text \<open>
  What holds of the four variables of \<^verbatim>\<open>parseFromHtml\<close> throughout the scan: the title is
  trimmed, and the currency is \<^verbatim>\<open>null\<close> or not empty.
\<close>

definition variables_ok :: "product \<Rightarrow> bool" where
  "variables_ok st = (trim (title st) = title st \<and> currency st \<noteq> Some '''')"

subsection \<open>Request authorization\<close>

text \<open>
  \<^verbatim>\<open>const TOKEN = process.env.SCRAPER_TOKEN || "";\<close>
  The environment value is \<open>None\<close> when the variable is unset.
\<close>

definition TOKEN :: "string option \<Rightarrow> string" where
  "TOKEN env = (case env of None \<Rightarrow> '''' | Some v \<Rightarrow> (if v \<noteq> '''' then v else ''''))"

text \<open>The part of a request \<^verbatim>\<open>authOk\<close> reads: \<^verbatim>\<open>req.headers.authorization\<close>.\<close>

record request =
  authorization :: "string option"

text \<open>\<^verbatim>\<open>authOk(req)\<close>, with the constant \<^verbatim>\<open>TOKEN\<close> as an argument.\<close>

definition authOk :: "string \<Rightarrow> request \<Rightarrow> bool" where
  "authOk tok req =
     (if tok = '''' then True
      else (let h = (case authorization req of None \<Rightarrow> '''' | Some a \<Rightarrow> (if a \<noteq> '''' then a else ''''))
            in h = ''Bearer '' @ tok))"

section \<open>Terms of the specification\<close>

text \<open>
  The definitions of this section follow the words of the specification, not the source;
  the theorems below compare the source with them.

  What is left of a text after stripping every character that is not a digit, a comma or a
  period.
\<close>

definition price_chars :: "string \<Rightarrow> string" where
  "price_chars s = filter (\<lambda>c. is_digit c \<or> c = CHR '','' \<or> c = CHR ''.'') s"

text \<open>The separator (comma or period) that occurs last in a text that has one.\<close>

definition last_separator :: "string \<Rightarrow> char" where
  "last_separator cleaned = last (filter (\<lambda>c. c = CHR '','' \<or> c = CHR ''.'') cleaned)"

text \<open>
  The rule for a text with both separators: the separator occurring last is the decimal
  separator, all occurrences of the other separator are removed, and the decimal separator
  is replaced with a period. \<open>decimal_rule\<close> replaces every decimal separator that is left,
  \<open>decimal_rule_first\<close> only the first one.
\<close>

definition decimal_rule :: "string \<Rightarrow> string" where
  "decimal_rule cleaned =
     (let dec = last_separator cleaned;
          other = (if dec = CHR '','' then CHR ''.'' else CHR '','')
      in map (\<lambda>c. if c = dec then CHR ''.'' else c) (filter (\<lambda>c. c \<noteq> other) cleaned))"

definition decimal_rule_first :: "string \<Rightarrow> string" where
  "decimal_rule_first cleaned =
     (let dec = last_separator cleaned;
          other = (if dec = CHR '','' then CHR ''.'' else CHR '','')
      in replace_first dec (CHR ''.'') (filter (\<lambda>c. c \<noteq> other) cleaned))"




text \<open>A three-letter currency code: three ASCII letters.\<close>

definition is_currency_code :: "string \<Rightarrow> bool" where
  "is_currency_code c =
     (length c = 3 \<and> list_all (\<lambda>x. x \<in> set ''ABCDEFGHIJKLMNOPQRSTUVWXYZabcdefghijklmnopqrstuvwxyz'') c)"

section \<open>Example documents\<close>

text \<open>
  The documents of the examples, each with the text of its structured-data script and the
  value \<^verbatim>\<open>JSON.parse\<close> reads from that text.
\<close>

definition empty_page :: page where
  "empty_page =
     \<lparr>ld_json_scripts = [], og_title = None, twitter_title = None, title_text = '''',
      og_image = None, twitter_image = None,
      price_amount_property = None, price_amount_name = None,
      itemprop_price_content = None, itemprop_price_text = '''',
      price_currency_property = None, price_currency_name = None,
      itemprop_currency_content = None, itemprop_currency_text = ''''\<rparr>"

definition html_with_script :: "string \<Rightarrow> string" where
  \<open>html_with_script script =
     ''<html><head><script type="application/ld+json">'' @ script
       @ ''</script></head><body></body></html>''\<close>

definition widget_script :: string where
  \<open>widget_script =
     ''{"@type":"Product","name":"Widget","image":["http://a/x.jpg","http://a/y.jpg"],''
     @ ''"offers":{"price":"19,99","priceCurrency":"EUR"}}''\<close>

definition widget_json :: json where
  "widget_json =
     JObj [(''@type'', JStr ''Product''), (''name'', JStr ''Widget''),
           (''image'', JArr [JStr ''http://a/x.jpg'', JStr ''http://a/y.jpg'']),
           (''offers'', JObj [(''price'', JStr ''19,99''), (''priceCurrency'', JStr ''EUR'')])]"

definition euros_script :: string where
  \<open>euros_script = ''{"@type":"Product","offers":{"price":"5","priceCurrency":"euros"}}''\<close>

definition euros_json :: json where
  "euros_json =
     JObj [(''@type'', JStr ''Product''),
           (''offers'', JObj [(''price'', JStr ''5''), (''priceCurrency'', JStr ''euros'')])]"

text \<open>Two products: the first offer has a price and no currency, the second has both.\<close>

definition priced_json :: json where
  "priced_json = JObj [(''@type'', JStr ''Product''), (''offers'', JObj [(''price'', JStr ''10'')])]"

definition priced_eur_json :: json where
  "priced_eur_json =
     JObj [(''@type'', JStr ''Product''),
           (''offers'', JObj [(''price'', JStr ''12''), (''priceCurrency'', JStr ''EUR'')])]"

definition two_offers_script :: string where
  \<open>two_offers_script =
     ''[{"@type":"Product","offers":{"price":"10"}},''
     @ ''{"@type":"Product","offers":{"price":"12","priceCurrency":"EUR"}}]''\<close>

definition two_offers_json :: json where
  "two_offers_json = JArr [priced_json, priced_eur_json]"

text \<open>A script text that is not JSON.\<close>

definition malformed_script :: string where
  \<open>malformed_script = ''{"@type":"Product","name":''\<close>

definition two_scripts_html :: string where
  \<open>two_scripts_html =
     ''<html><head><script type="application/ld+json">'' @ malformed_script
       @ ''</script><script type="application/ld+json">'' @ widget_script
       @ ''</script></head><body></body></html>''\<close>

definition shoes_html :: string where
  \<open>shoes_html =
     ''<html><head><meta property="og:title" content="Cool Shoes">''
     @ ''<meta property="og:image" content="/img/shoe.png"></head><body></body></html>''\<close>

definition dollar_html :: string where
  \<open>dollar_html =
     ''<html><head><meta property="product:price:amount" content="$19.99">''
     @ ''</head><body></body></html>''\<close>

definition shop_url :: string where
  "shop_url = ''https://shop.example/p/1''"

text \<open>
  A runtime for the examples. On the documents, script texts and references above it
  answers as the platform and the libraries do; these are the only arguments the examples
  give it. Elsewhere its answers are placeholders: an empty document, a thrown error, an
  empty text.
\<close>

definition example_pages :: "(string \<times> page) list" where
  "example_pages =
     [('''', empty_page),
      (html_with_script widget_script, empty_page\<lparr>ld_json_scripts := [widget_script]\<rparr>),
      (html_with_script euros_script, empty_page\<lparr>ld_json_scripts := [euros_script]\<rparr>),
      (html_with_script two_offers_script, empty_page\<lparr>ld_json_scripts := [two_offers_script]\<rparr>),
      (two_scripts_html, empty_page\<lparr>ld_json_scripts := [malformed_script, widget_script]\<rparr>),
      (shoes_html, empty_page\<lparr>og_title := Some ''Cool Shoes'', og_image := Some ''/img/shoe.png''\<rparr>),
      (html_with_script malformed_script, empty_page\<lparr>ld_json_scripts := [malformed_script]\<rparr>),
      (dollar_html, empty_page\<lparr>price_amount_property := Some ''$19.99''\<rparr>)]"

definition example_values :: "(string \<times> (js_error + json)) list" where
  "example_values =
     [(widget_script, Inr widget_json), (euros_script, Inr euros_json),
      (two_offers_script, Inr two_offers_json), (malformed_script, Inl SyntaxError)]"

text \<open>The last reference has no closing bracket after the host's opening one: it is not a URL.\<close>

definition example_hrefs :: "((string \<times> string) \<times> (js_error + string)) list" where
  "example_hrefs =
     [((''http://a/x.jpg'', shop_url), Inr ''http://a/x.jpg''),
      ((''/img/shoe.png'', shop_url), Inr ''https://shop.example/img/shoe.png''),
      ((''http://[shop'', shop_url), Inl TypeError)]"

definition example_runtime :: runtime where
  "example_runtime =
     \<lparr>cheerio_load = (\<lambda>html. case map_of example_pages html of Some pg \<Rightarrow> pg | None \<Rightarrow> empty_page),
      JSON_parse = (\<lambda>raw. case map_of example_values raw of Some r \<Rightarrow> r | None \<Rightarrow> Inl SyntaxError),
      URL_href = (\<lambda>ref base. case map_of example_hrefs (ref, base) of
                                 Some r \<Rightarrow> r | None \<Rightarrow> Inl TypeError),
      Number_toString = (\<lambda>q. '''')\<rparr>"

section \<open>Properties\<close>

subsection \<open>Trimming\<close>

lemma strip_leading_None:
  "find (\<lambda>w. w \<noteq> [] \<and> prefix w s) ws = None \<Longrightarrow> strip_leading ws s = s"
  by (subst strip_leading.simps) simp

lemma strip_leading_Some:
  "find (\<lambda>w. w \<noteq> [] \<and> prefix w s) ws = Some w \<Longrightarrow>
   strip_leading ws s = strip_leading ws (drop (length w) s)"
  by (subst strip_leading.simps) simp

lemma strip_leading_fixed:
  "find (\<lambda>w. w \<noteq> [] \<and> prefix w (strip_leading ws s)) ws = None"
proof (induction ws s rule: strip_leading.induct)
  case (1 ws s)
  show ?case
  proof (cases "find (\<lambda>w. w \<noteq> [] \<and> prefix w s) ws")
    case None
    then show ?thesis by (simp add: strip_leading_None)
  next
    case (Some w)
    with "1" show ?thesis by (simp add: strip_leading_Some)
  qed
qed

lemma strip_leading_idem: "strip_leading ws (strip_leading ws s) = strip_leading ws s"
  by (rule strip_leading_None) (rule strip_leading_fixed)

lemma strip_leading_suffix: "suffix (strip_leading ws s) s"
proof (induction ws s rule: strip_leading.induct)
  case (1 ws s)
  show ?case
  proof (cases "find (\<lambda>w. w \<noteq> [] \<and> prefix w s) ws")
    case None
    then show ?thesis by (simp add: strip_leading_None)
  next
    case (Some w)
    with "1" have "suffix (strip_leading ws s) (drop (length w) s)"
      by (simp add: strip_leading_Some)
    then show ?thesis
      by (meson suffix_drop suffix_order.trans)
  qed
qed

lemma strip_leading_filter:
  "\<forall>w\<in>set ws. \<forall>c\<in>set w. \<not> P c \<Longrightarrow> filter P (strip_leading ws s) = filter P s"
proof (induction ws s rule: strip_leading.induct)
  case (1 ws s)
  show ?case
  proof (cases "find (\<lambda>w. w \<noteq> [] \<and> prefix w s) ws")
    case None
    then show ?thesis by (simp add: strip_leading_None)
  next
    case (Some w)
    then have w: "w \<in> set ws" "prefix w s"
      by (auto simp: find_Some_iff)
    then obtain t where t: "s = w @ t"
      by (auto simp: prefix_def)
    from "1.prems" w have "filter P w = []"
      by (auto simp: filter_empty_conv)
    with t have "filter P (drop (length w) s) = filter P s"
      by simp
    with "1.IH" [OF Some "1.prems"] Some show ?thesis
      by (simp add: strip_leading_Some)
  qed
qed

lemma strip_leading_Nil: "strip_leading ws [] = []"
  by (rule strip_leading_None) (simp add: find_None_iff)

lemma trim_Nil: "trim [] = []"
  by (simp add: trim_def trimStart_def trimEnd_def strip_leading_Nil)

lemma no_leading_prefix:
  assumes "find (\<lambda>w. w \<noteq> [] \<and> prefix w a) ws = None" and "prefix r a"
  shows "find (\<lambda>w. w \<noteq> [] \<and> prefix w r) ws = None"
  using assms by (auto simp: find_None_iff dest: prefix_order.trans)

lemma trimEnd_prefix: "prefix (trimEnd a) a"
proof -
  have "suffix (strip_leading (map rev js_whitespace) (rev a)) (rev a)"
    by (rule strip_leading_suffix)
  then show ?thesis
    by (simp add: trimEnd_def suffix_to_prefix)
qed

lemma trimEnd_idem: "trimEnd (trimEnd a) = trimEnd a"
  by (simp add: trimEnd_def strip_leading_idem)

lemma trimStart_trim: "trimStart (trim s) = trim s"
  unfolding trim_def trimStart_def
  by (rule strip_leading_None, rule no_leading_prefix [OF strip_leading_fixed])
     (rule trimEnd_prefix [unfolded trimStart_def])

lemma trim_idem: "trim (trim s) = trim s"
proof -
  have "trim (trim s) = trimEnd (trimStart (trim s))" by (simp add: trim_def)
  also have "\<dots> = trimEnd (trim s)" by (simp add: trimStart_trim)
  also have "\<dots> = trim s" by (simp add: trim_def trimEnd_idem)
  finally show ?thesis .
qed

lemma filter_trim:
  assumes "\<forall>w\<in>set js_whitespace. \<forall>c\<in>set w. \<not> P c"
  shows "filter P (trim s) = filter P s"
proof -
  from assms have r: "\<forall>w\<in>set (map rev js_whitespace). \<forall>c\<in>set w. \<not> P c"
    by simp
  have "filter P (trimEnd t) = filter P t" for t
    unfolding trimEnd_def
    by (simp only: rev_filter [symmetric] strip_leading_filter [OF r] rev_rev_ident)
  moreover have "filter P (trimStart s) = filter P s"
    unfolding trimStart_def using assms by (rule strip_leading_filter)
  ultimately show ?thesis by (simp add: trim_def)
qed

lemma trim_pickFirst: "trim (pickFirst vs) = pickFirst vs"
  by (induction vs) (simp_all add: trim_Nil trim_idem Let_def)

subsection \<open>The numeric normalizer\<close>

lemma lastIndexOf_ge: "- 1 \<le> lastIndexOf s c"
  by (induction s) (auto simp: Let_def)

lemma lastIndexOf_absent: "lastIndexOf s c = - 1 \<longleftrightarrow> c \<notin> set s"
proof (induction s)
  case Nil
  then show ?case by simp
next
  case (Cons x xs)
  with lastIndexOf_ge [of xs c] show ?case
    by (auto simp: Let_def)
qed

lemma lastIndexOf_present: "c \<in> set s \<Longrightarrow> 0 \<le> lastIndexOf s c"
  using lastIndexOf_ge [of s c] lastIndexOf_absent [of s c] by linarith

lemma lastIndexOf_order:
  assumes "c \<noteq> d" "c \<in> set s" "d \<in> set s"
  shows "lastIndexOf s c > lastIndexOf s d \<longleftrightarrow> last (filter (\<lambda>x. x = c \<or> x = d) s) = c"
  using assms
proof (induction s)
  case Nil
  then show ?case by simp
next
  case (Cons x xs)
  let ?P = "\<lambda>x. x = c \<or> x = d"
  consider (both) "c \<in> set xs" "d \<in> set xs"
    | (conly) "c \<in> set xs" "d \<notin> set xs" "x = d"
    | (donly) "d \<in> set xs" "c \<notin> set xs" "x = c"
    using Cons.prems by auto
  then show ?case
  proof cases
    case both
    then have "filter ?P xs \<noteq> []"
      by (auto simp: filter_empty_conv)
    with both Cons.IH [OF Cons.prems(1)] show ?thesis
      by (auto simp: Let_def lastIndexOf_absent)
  next
    case conly
    then have ne: "filter ?P xs \<noteq> []" and all: "\<forall>y\<in>set (filter ?P xs). y = c"
      by (auto simp: filter_empty_conv)
    from ne all have "last (filter ?P xs) = c"
      using last_in_set by blast
    with conly ne lastIndexOf_present [of c xs] show ?thesis
      by (auto simp: Let_def lastIndexOf_absent)
  next
    case donly
    then have ne: "filter ?P xs \<noteq> []" and all: "\<forall>y\<in>set (filter ?P xs). y = d"
      by (auto simp: filter_empty_conv)
    from ne all have "last (filter ?P xs) = d"
      using last_in_set by blast
    with donly ne lastIndexOf_present [of d xs] Cons.prems(1) show ?thesis
      by (auto simp: Let_def lastIndexOf_absent)
  qed
qed

lemma not_digit_separators: "\<not> is_digit (CHR '','')" "\<not> is_digit (CHR ''.'')"
  by (simp_all add: is_digit_def)

lemma Number_of_string_NaN:
  assumes "t \<noteq> []"
    and "\<not> list_all is_digit (takeWhile (\<lambda>c. c \<noteq> CHR ''.'') t)
         \<or> \<not> list_all is_digit (case dropWhile (\<lambda>c. c \<noteq> CHR ''.'') t of [] \<Rightarrow> [] | dot # ds \<Rightarrow> ds)"
  shows "Number_of_string t = NaN"
  unfolding Number_of_string_def Let_def using assms by (simp, blast)

lemma after_period:
  assumes "dropWhile (\<lambda>c. c \<noteq> CHR ''.'') t = d # ds"
  shows "d = CHR ''.''"
  using hd_dropWhile [of "\<lambda>c. c \<noteq> CHR ''.''" t] assms by simp

lemma Number_of_string_comma:
  assumes "CHR '','' \<in> set t"
  shows "Number_of_string t = NaN"
proof -
  let ?ip = "takeWhile (\<lambda>c. c \<noteq> CHR ''.'') t"
  let ?rest = "dropWhile (\<lambda>c. c \<noteq> CHR ''.'') t"
  let ?fp = "case ?rest of [] \<Rightarrow> [] | dot # ds \<Rightarrow> ds"
  have "set t = set ?ip \<union> set ?rest"
    by (metis set_append takeWhile_dropWhile_id)
  with assms have "CHR '','' \<in> set ?ip \<or> CHR '','' \<in> set ?rest" by simp
  moreover have "CHR '','' \<in> set ?fp" if "CHR '','' \<in> set ?rest"
  proof (cases ?rest)
    case Nil
    with that show ?thesis by simp
  next
    case (Cons d ds)
    then have "d = CHR ''.''" by (rule after_period)
    with Cons that show ?thesis by auto
  qed
  ultimately have "\<not> list_all is_digit ?ip \<or> \<not> list_all is_digit ?fp"
    using not_digit_separators(1) by (auto simp: list_all_iff)
  moreover from assms have "t \<noteq> []" by auto
  ultimately show ?thesis
    by (rule Number_of_string_NaN [rotated])
qed

lemma Number_of_string_two_periods:
  assumes "2 \<le> length (filter (\<lambda>c. c = CHR ''.'') t)"
  shows "Number_of_string t = NaN"
proof -
  let ?ip = "takeWhile (\<lambda>c. c \<noteq> CHR ''.'') t"
  let ?rest = "dropWhile (\<lambda>c. c \<noteq> CHR ''.'') t"
  let ?fp = "case ?rest of [] \<Rightarrow> [] | dot # ds \<Rightarrow> ds"
  have "filter (\<lambda>c. c = CHR ''.'') ?ip = []"
    by (auto simp: filter_empty_conv dest: set_takeWhileD)
  moreover have "filter (\<lambda>c. c = CHR ''.'') t
      = filter (\<lambda>c. c = CHR ''.'') ?ip @ filter (\<lambda>c. c = CHR ''.'') ?rest"
    by (metis filter_append takeWhile_dropWhile_id)
  ultimately have two: "2 \<le> length (filter (\<lambda>c. c = CHR ''.'') ?rest)"
    using assms by simp
  then obtain d ds where rest: "?rest = d # ds" by (cases ?rest) auto
  with two have "filter (\<lambda>c. c = CHR ''.'') ds \<noteq> []"
    by (auto split: if_splits)
  then have "CHR ''.'' \<in> set ds"
    by (auto simp: filter_empty_conv)
  with rest have "\<not> list_all is_digit ?fp"
    using not_digit_separators(2) by (auto simp: list_all_iff)
  moreover from assms have "t \<noteq> []" by auto
  ultimately show ?thesis
    by (intro Number_of_string_NaN) simp_all
qed

lemma replace_first_subset: "set (replace_first a b t) \<subseteq> insert b (set t)"
  by (induction t) auto

lemma replace_first_same: "replace_first a a t = t"
  by (induction t) auto

lemma replace_first_once:
  "length (filter (\<lambda>c. c = a) t) \<le> 1 \<Longrightarrow>
   replace_first a b t = map (\<lambda>c. if c = a then b else c) t"
proof (induction t)
  case Nil
  then show ?case by simp
next
  case (Cons x xs)
  show ?case
  proof (cases "x = a")
    case True
    with Cons.prems have "a \<notin> set xs"
      by (auto simp: filter_empty_conv)
    then have "map (\<lambda>c. if c = a then b else c) xs = xs"
      by (induction xs) auto
    with True show ?thesis by simp
  next
    case False
    with Cons show ?thesis by simp
  qed
qed

lemma replace_first_keeps:
  "2 \<le> length (filter (\<lambda>c. c = a) t) \<Longrightarrow> a \<in> set (replace_first a b t)"
proof (induction t)
  case Nil
  then show ?case by simp
next
  case (Cons x xs)
  show ?case
  proof (cases "x = a")
    case True
    with Cons.prems have "filter (\<lambda>c. c = a) xs \<noteq> []" by auto
    then have "a \<in> set xs" by (auto simp: filter_empty_conv)
    with True show ?thesis by simp
  next
    case False
    with Cons show ?thesis by simp
  qed
qed

lemma price_chars_trim: "price_chars (trim s) = price_chars s"
  unfolding price_chars_def
  by (rule filter_trim) (simp add: js_whitespace_def is_digit_def)

lemma price_chars_alt:
  "filter (\<lambda>c. is_digit c \<or> c = CHR ''.'' \<or> c = CHR '','') s = price_chars s"
  unfolding price_chars_def by (rule filter_cong) auto

lemma toNumberOrNull_JStr:
  "toNumberOrNull rt (Some (JStr s)) =
     Inr (if price_chars s = [] then None
          else finite_or_null (Number_of_string (normalized (price_chars s))))"
proof -
  have "price_chars s = []" if "trim s = []"
    using price_chars_trim [of s] that by (simp add: price_chars_def)
  then show ?thesis
    by (simp add: toNumberOrNull_def Let_def price_chars_alt price_chars_trim)
qed

lemma normalized_subset: "set (normalized cleaned) \<subseteq> insert (CHR ''.'') (set cleaned)"
  unfolding normalized_def Let_def
  by (auto split: if_splits dest!: subsetD [OF replace_first_subset])

lemma normalized_alphabet:
  "set (normalized (price_chars s)) \<subseteq> {c. is_digit c \<or> c = CHR '','' \<or> c = CHR ''.''}"
  using normalized_subset [of "price_chars s"] by (auto simp: price_chars_def)

lemma last_separator_cases:
  assumes "CHR '','' \<in> set cleaned \<or> CHR ''.'' \<in> set cleaned"
  shows "last_separator cleaned = CHR '','' \<or> last_separator cleaned = CHR ''.''"
proof -
  let ?f = "filter (\<lambda>c. c = CHR '','' \<or> c = CHR ''.'') cleaned"
  from assms have "?f \<noteq> []" by (auto simp: filter_empty_conv)
  then have "last ?f \<in> set ?f" by (rule last_in_set)
  then show ?thesis by (auto simp: last_separator_def)
qed

lemma normalized_both:
  assumes "CHR '','' \<in> set cleaned" and "CHR ''.'' \<in> set cleaned"
  shows "normalized cleaned = decimal_rule_first cleaned"
proof -
  have order: "lastIndexOf cleaned (CHR ''.'') < lastIndexOf cleaned (CHR '','')
      \<longleftrightarrow> last_separator cleaned = CHR '',''"
    unfolding last_separator_def using lastIndexOf_order [OF _ assms] by simp
  from assms have present:
    "lastIndexOf cleaned (CHR '','') \<noteq> - 1" "lastIndexOf cleaned (CHR ''.'') \<noteq> - 1"
    by (simp_all add: lastIndexOf_absent)
  show ?thesis
  proof (cases "last_separator cleaned = CHR '',''")
    case True
    with order present show ?thesis
      by (simp add: normalized_def decimal_rule_first_def Let_def)
  next
    case False
    with last_separator_cases [of cleaned] assms have "last_separator cleaned = CHR ''.''"
      by simp
    with order present show ?thesis
      by (simp add: normalized_def decimal_rule_first_def Let_def)
  qed
qed

lemma decimal_rule_number:
  assumes "CHR '','' \<in> set cleaned" and "CHR ''.'' \<in> set cleaned"
  shows "Number_of_string (decimal_rule cleaned) = Number_of_string (decimal_rule_first cleaned)"
proof -
  define dec where "dec = last_separator cleaned"
  define other where "other = (if dec = CHR '','' then CHR ''.'' else CHR '','')"
  define t where "t = filter (\<lambda>c. c \<noteq> other) cleaned"
  have all: "decimal_rule cleaned = map (\<lambda>c. if c = dec then CHR ''.'' else c) t"
    and first: "decimal_rule_first cleaned = replace_first dec (CHR ''.'') t"
    by (simp_all add: decimal_rule_def decimal_rule_first_def Let_def dec_def other_def t_def)
  have dec: "dec = CHR '','' \<or> dec = CHR ''.''"
    unfolding dec_def using assms by (intro last_separator_cases) simp
  show ?thesis
  proof (cases "length (filter (\<lambda>c. c = dec) t) \<le> 1")
    case True
    then show ?thesis
      by (simp add: all first replace_first_once)
  next
    case False
    then have two: "2 \<le> length (filter (\<lambda>c. c = dec) t)" by simp
    have "filter (\<lambda>c. c = CHR ''.'') (map (\<lambda>c. if c = dec then CHR ''.'' else c) t)
        = map (\<lambda>c. CHR ''.'') (filter (\<lambda>c. c = dec \<or> c = CHR ''.'') t)"
      by (induction t) auto
    moreover have "length (filter (\<lambda>c. c = dec) t) \<le> length (filter (\<lambda>c. c = dec \<or> c = CHR ''.'') t)"
      by (induction t) auto
    ultimately have "2 \<le> length (filter (\<lambda>c. c = CHR ''.'') (decimal_rule cleaned))"
      using two by (simp add: all)
    then have left: "Number_of_string (decimal_rule cleaned) = NaN"
      by (rule Number_of_string_two_periods)
    from dec show ?thesis
    proof
      assume "dec = CHR '',''"
      with two have "CHR '','' \<in> set (decimal_rule_first cleaned)"
        by (simp add: first replace_first_keeps)
      then show ?thesis
        by (simp add: left Number_of_string_comma)
    next
      assume "dec = CHR ''.''"
      with two show ?thesis
        by (simp add: left first replace_first_same Number_of_string_two_periods)
    qed
  qed
qed

text \<open>
  C2. The numeric normalizer maps "1.234,56" to 1234.56, "1,234.56" to 1234.56, "19,99" to
  19.99, "" to absent and "abc" to absent. In general, when both comma and period appear in
  the cleaned string, the separator occurring last is treated as the decimal separator, all
  occurrences of the other separator are removed, and the decimal separator is replaced with
  a period: the result is the number read from that text, whether every decimal separator or
  only the first one (as in the source) is replaced.
\<close>

theorem toNumberOrNull_decimal_separator:
  "toNumberOrNull rt (Some (JStr ''1.234,56'')) = Inr (Some (123456 / 100))
   \<and> toNumberOrNull rt (Some (JStr ''1,234.56'')) = Inr (Some (123456 / 100))
   \<and> toNumberOrNull rt (Some (JStr ''19,99'')) = Inr (Some (1999 / 100))
   \<and> toNumberOrNull rt (Some (JStr '''')) = Inr None
   \<and> toNumberOrNull rt (Some (JStr ''abc'')) = Inr None
   \<and> (CHR '','' \<in> set (price_chars s) \<and> CHR ''.'' \<in> set (price_chars s) \<longrightarrow>
        toNumberOrNull rt (Some (JStr s))
          = Inr (finite_or_null (Number_of_string (decimal_rule (price_chars s))))
        \<and> toNumberOrNull rt (Some (JStr s))
          = Inr (finite_or_null (Number_of_string (decimal_rule_first (price_chars s)))))"
proof -
  have 1: "toNumberOrNull rt (Some (JStr ''1.234,56'')) = Inr (Some (123456 / 100))"
    by (simp add: toNumberOrNull_JStr price_chars_def is_digit_def normalized_def
        Number_of_string_def digits_value_def double_overflow_def finite_or_null_def)
  have 2: "toNumberOrNull rt (Some (JStr ''1,234.56'')) = Inr (Some (123456 / 100))"
    by (simp add: toNumberOrNull_JStr price_chars_def is_digit_def normalized_def
        Number_of_string_def digits_value_def double_overflow_def finite_or_null_def)
  have 3: "toNumberOrNull rt (Some (JStr ''19,99'')) = Inr (Some (1999 / 100))"
    by (simp add: toNumberOrNull_JStr price_chars_def is_digit_def normalized_def
        Number_of_string_def digits_value_def double_overflow_def finite_or_null_def)
  have 4: "toNumberOrNull rt (Some (JStr '''')) = Inr None"
    by (simp add: toNumberOrNull_JStr price_chars_def)
  have 5: "toNumberOrNull rt (Some (JStr ''abc'')) = Inr None"
    by (simp add: toNumberOrNull_JStr price_chars_def is_digit_def)
  have 6: "toNumberOrNull rt (Some (JStr s))
          = Inr (finite_or_null (Number_of_string (decimal_rule (price_chars s))))
        \<and> toNumberOrNull rt (Some (JStr s))
          = Inr (finite_or_null (Number_of_string (decimal_rule_first (price_chars s))))"
    if "CHR '','' \<in> set (price_chars s)" "CHR ''.'' \<in> set (price_chars s)"
  proof -
    from that have "price_chars s \<noteq> []" by auto
    with that show ?thesis
      by (simp add: toNumberOrNull_JStr normalized_both decimal_rule_number)
  qed
  from 1 2 3 4 5 6 show ?thesis by blast
qed

theorem toNumberOrNull_decimal_separator_witness:
  "\<forall>rt. CHR '','' \<in> set (price_chars ''EUR 1.234,56'') \<and> CHR ''.'' \<in> set (price_chars ''EUR 1.234,56'')
     \<and> decimal_rule (price_chars ''EUR 1.234,56'') = ''1234.56''
     \<and> toNumberOrNull rt (Some (JStr ''EUR 1.234,56'')) = Inr (Some (123456 / 100))"
proof
  fix rt
  have both: "CHR '','' \<in> set (price_chars ''EUR 1.234,56'') \<and> CHR ''.'' \<in> set (price_chars ''EUR 1.234,56'')"
    by (simp add: price_chars_def is_digit_def)
  have rule: "decimal_rule (price_chars ''EUR 1.234,56'') = ''1234.56''"
    by (simp add: decimal_rule_def last_separator_def price_chars_def is_digit_def)
  have "finite_or_null (Number_of_string ''1234.56'') = Some (123456 / 100)"
    by (simp add: Number_of_string_def is_digit_def digits_value_def double_overflow_def
        finite_or_null_def)
  with both rule toNumberOrNull_decimal_separator [of rt "''EUR 1.234,56''"]
  show "CHR '','' \<in> set (price_chars ''EUR 1.234,56'') \<and> CHR ''.'' \<in> set (price_chars ''EUR 1.234,56'')
     \<and> decimal_rule (price_chars ''EUR 1.234,56'') = ''1234.56''
     \<and> toNumberOrNull rt (Some (JStr ''EUR 1.234,56'')) = Inr (Some (123456 / 100))"
    by simp
qed

text \<open>
  C9. For every input string that, after stripping characters other than digits, commas and
  periods, contains two or more commas and no period, the numeric normalizer returns absent:
  only the first comma is replaced with a period, a later comma stays, and the text is not
  a number.
\<close>

theorem toNumberOrNull_two_commas:
  assumes "2 \<le> length (filter (\<lambda>c. c = CHR '','') (price_chars s))"
    and "CHR ''.'' \<notin> set (price_chars s)"
  shows "normalized (price_chars s) = replace_first (CHR '','') (CHR ''.'') (price_chars s)
         \<and> CHR '','' \<in> set (normalized (price_chars s))
         \<and> Number_of_string (normalized (price_chars s)) = NaN
         \<and> toNumberOrNull rt (Some (JStr s)) = Inr None"
proof -
  from assms(2) have n: "normalized (price_chars s) = replace_first (CHR '','') (CHR ''.'') (price_chars s)"
    by (simp add: normalized_def Let_def lastIndexOf_absent)
  from assms(1) have c: "CHR '','' \<in> set (normalized (price_chars s))"
    unfolding n by (rule replace_first_keeps)
  then have nan: "Number_of_string (normalized (price_chars s)) = NaN"
    by (rule Number_of_string_comma)
  from assms(1) have "price_chars s \<noteq> []" by auto
  with nan have "toNumberOrNull rt (Some (JStr s)) = Inr None"
    by (simp add: toNumberOrNull_JStr finite_or_null_def)
  with n c nan show ?thesis by simp
qed

theorem toNumberOrNull_two_commas_witness:
  "\<forall>rt. normalized (price_chars ''1,234,567'') = ''1.234,567''
     \<and> toNumberOrNull rt (Some (JStr ''1,234,567'')) = Inr None"
proof
  fix rt
  have "2 \<le> length (filter (\<lambda>c. c = CHR '','') (price_chars ''1,234,567''))"
    and "CHR ''.'' \<notin> set (price_chars ''1,234,567'')"
    by (simp_all add: price_chars_def is_digit_def)
  from toNumberOrNull_two_commas [OF this, of rt]
  show "normalized (price_chars ''1,234,567'') = ''1.234,567''
     \<and> toNumberOrNull rt (Some (JStr ''1,234,567'')) = Inr None"
    by (simp add: price_chars_def is_digit_def)
qed

subsection \<open>The currency detector\<close>











subsection \<open>The example runtime\<close>

lemma example_load:
  "cheerio_load example_runtime (html_with_script widget_script) = empty_page\<lparr>ld_json_scripts := [widget_script]\<rparr>"
  "cheerio_load example_runtime (html_with_script euros_script) = empty_page\<lparr>ld_json_scripts := [euros_script]\<rparr>"
  "cheerio_load example_runtime (html_with_script two_offers_script) = empty_page\<lparr>ld_json_scripts := [two_offers_script]\<rparr>"
  "cheerio_load example_runtime two_scripts_html = empty_page\<lparr>ld_json_scripts := [malformed_script, widget_script]\<rparr>"
  "cheerio_load example_runtime shoes_html = empty_page\<lparr>og_title := Some ''Cool Shoes'', og_image := Some ''/img/shoe.png''\<rparr>"
  "cheerio_load example_runtime (html_with_script malformed_script) = empty_page\<lparr>ld_json_scripts := [malformed_script]\<rparr>"
  "cheerio_load example_runtime dollar_html = empty_page\<lparr>price_amount_property := Some ''$19.99''\<rparr>"
  by (simp_all add: example_runtime_def example_pages_def html_with_script_def widget_script_def
      euros_script_def two_offers_script_def two_scripts_html_def shoes_html_def malformed_script_def
      dollar_html_def)

lemma example_parse:
  "JSON_parse example_runtime widget_script = Inr widget_json"
  "JSON_parse example_runtime euros_script = Inr euros_json"
  "JSON_parse example_runtime two_offers_script = Inr two_offers_json"
  "JSON_parse example_runtime malformed_script = Inl SyntaxError"
  by (simp_all add: example_runtime_def example_values_def widget_script_def
      euros_script_def two_offers_script_def malformed_script_def)

lemma example_href:
  "URL_href example_runtime ''http://a/x.jpg'' shop_url = Inr ''http://a/x.jpg''"
  "URL_href example_runtime ''/img/shoe.png'' shop_url = Inr ''https://shop.example/img/shoe.png''"
  "URL_href example_runtime ''http://[shop'' shop_url = Inl TypeError"
  by (simp_all add: example_runtime_def example_hrefs_def)

subsection \<open>The scan of the candidates\<close>

lemma set_title_ok: "variables_ok st \<Longrightarrow> variables_ok (fst (set_title rt st n))"
  by (auto simp: set_title_def variables_ok_def trim_idem split: option.splits sum.splits)

lemma set_image_ok: "variables_ok st \<Longrightarrow> variables_ok (set_image st n)"
  by (auto simp: set_image_def variables_ok_def split: option.splits json.splits list.splits)

lemma set_offer_ok: "variables_ok st \<Longrightarrow> variables_ok (fst (set_offer rt st n))"
  by (auto simp: set_offer_def variables_ok_def Let_def split: option.splits sum.splits)

lemma visit_ok: "variables_ok st \<Longrightarrow> variables_ok (fst (visit rt st n))"
proof -
  assume ok: "variables_ok st"
  obtain st1 e1 where t: "set_title rt st n = (st1, e1)" by (cases "set_title rt st n")
  with set_title_ok [OF ok, of rt n] have ok1: "variables_ok st1" by simp
  obtain st3 e3 where o: "set_offer rt (set_image st1 n) n = (st3, e3)"
    by (cases "set_offer rt (set_image st1 n) n")
  with set_offer_ok [OF set_image_ok [OF ok1], of rt n n] have ok3: "variables_ok st3" by simp
  from t o ok1 ok3 show ?thesis
    by (simp add: visit_def Let_def split: option.splits)
qed

lemma scan_ok: "variables_ok st \<Longrightarrow> variables_ok (fst (scan rt st ns))"
proof (induction ns arbitrary: st)
  case Nil
  then show ?case by simp
next
  case (Cons n ns)
  obtain st' c where v: "visit rt st n = (st', c)" by (cases "visit rt st n")
  with visit_ok [OF Cons.prems, of rt n] have "variables_ok st'" by simp
  with v Cons.IH [of st'] show ?case
    by (cases c) simp_all
qed

lemma script_block_ok: "variables_ok st \<Longrightarrow> variables_ok (script_block rt st raw)"
  by (simp add: script_block_def Let_def scan_ok split: sum.splits)

lemma foldl_script_block_ok:
  "variables_ok st \<Longrightarrow> variables_ok (foldl (script_block rt) st scripts)"
  by (induction scripts arbitrary: st) (simp_all add: script_block_ok)

lemma json_ld_ok: "variables_ok (json_ld rt scripts)"
  unfolding json_ld_def
  by (rule foldl_script_block_ok) (simp add: variables_ok_def initial_def trim_Nil)

subsection \<open>The merge step\<close>

lemma pickFirst_two:
  assumes "trim a = a" and "trim b = b"
  shows "pickFirst [Some a, Some b] = (if a \<noteq> '''' then a else b)"
  using assms by (simp add: Let_def)

lemma or_else_currency:
  assumes "c \<noteq> Some ''''" and "trim m = m"
  shows "or_else (or_else c (if m \<noteq> '''' then Some (trim m) else None)) d
       = (case c of Some x \<Rightarrow> Some x | None \<Rightarrow> if m \<noteq> '''' then Some (trim m) else d)"
  using assms by (auto simp: or_else_def split: option.splits)

lemma merge_result:
  assumes "variables_ok st" and "trim og_t = og_t" and "trim meta_c = meta_c"
  shows "merge rt url st og_t og_i meta_p meta_c =
     Inr \<lparr>title = (if title st \<noteq> '''' then title st else og_t),
          imageUrl = absUrl rt url (pickFirst [Some (imageUrl st), Some og_i]),
          price = (case price st of
                     Some p \<Rightarrow> Some p
                   | None \<Rightarrow> (if price_chars meta_p = [] then None
                              else finite_or_null (Number_of_string (normalized (price_chars meta_p))))),
          currency = (case currency st of
                        Some c \<Rightarrow> Some c
                      | None \<Rightarrow> if meta_c \<noteq> '''' then Some (trim meta_c)
                                else extractCurrencyLoose meta_p)\<rparr>"
proof -
  from assms have t: "pickFirst [Some (title st), Some og_t] = (if title st \<noteq> '''' then title st else og_t)"
    by (intro pickFirst_two) (simp_all add: variables_ok_def)
  from assms have c: "or_else (or_else (currency st) (if meta_c \<noteq> '''' then Some (trim meta_c) else None))
        (extractCurrencyLoose meta_p)
      = (case currency st of Some x \<Rightarrow> Some x
         | None \<Rightarrow> if meta_c \<noteq> '''' then Some (trim meta_c) else extractCurrencyLoose meta_p)"
    by (intro or_else_currency) (simp_all add: variables_ok_def)
  have m: "(if meta_p \<noteq> '''' then meta_p else '''') = meta_p" by simp
  show ?thesis
    unfolding merge_def Let_def t c m toNumberOrNull_JStr
    by (cases "price st") simp_all
qed

lemma trim_fallback:
  "trim (ogTitle pg) = ogTitle pg" "trim (metaCurrency pg) = metaCurrency pg"
  unfolding ogTitle_def metaCurrency_def by (rule trim_pickFirst)+

lemma parseFromHtml_result:
  "parseFromHtml rt url html =
     (let pg = cheerio_load rt html; st = json_ld rt (ld_json_scripts pg) in
      Inr \<lparr>title = (if title st \<noteq> '''' then title st else ogTitle pg),
           imageUrl = absUrl rt url (pickFirst [Some (imageUrl st), Some (ogImage pg)]),
           price = (case price st of
                      Some p \<Rightarrow> Some p
                    | None \<Rightarrow> (if price_chars (metaPrice pg) = [] then None
                               else finite_or_null
                                      (Number_of_string (normalized (price_chars (metaPrice pg)))))),
           currency = (case currency st of
                         Some c \<Rightarrow> Some c
                       | None \<Rightarrow> if metaCurrency pg \<noteq> '''' then Some (trim (metaCurrency pg))
                                 else extractCurrencyLoose (metaPrice pg))\<rparr>)"
  unfolding parseFromHtml_def Let_def
  by (rule merge_result) (simp_all only: json_ld_ok trim_fallback)

text \<open>
  C6. The merge step: the title is the structured title if non-empty, else the heuristic
  title; the price is the structured price if present, else the numeric normalization of the
  heuristic price string; the currency is the structured currency if present, else the
  trimmed heuristic currency string if non-empty, else the currency detector applied to the
  heuristic price string. Here the structured results are the variables after the scan of
  the script blocks and the heuristic strings are the four fallback strings, for every
  document.
\<close>

theorem merge_precedence:
  "\<exists>p normalized_price.
      parseFromHtml rt url html = Inr p
    \<and> toNumberOrNull rt (Some (JStr (metaPrice (cheerio_load rt html)))) = Inr normalized_price
    \<and> title p =
        (if title (json_ld rt (ld_json_scripts (cheerio_load rt html))) \<noteq> ''''
         then title (json_ld rt (ld_json_scripts (cheerio_load rt html)))
         else ogTitle (cheerio_load rt html))
    \<and> price p =
        (case price (json_ld rt (ld_json_scripts (cheerio_load rt html))) of
           Some x \<Rightarrow> Some x
         | None \<Rightarrow> normalized_price)
    \<and> currency p =
        (case currency (json_ld rt (ld_json_scripts (cheerio_load rt html))) of
           Some c \<Rightarrow> Some c
         | None \<Rightarrow>
             if trim (metaCurrency (cheerio_load rt html)) \<noteq> ''''
             then Some (trim (metaCurrency (cheerio_load rt html)))
             else extractCurrencyLoose (metaPrice (cheerio_load rt html)))"
proof -
  show ?thesis
    by (simp add: parseFromHtml_result Let_def toNumberOrNull_JStr trim_fallback)
qed

lemma example_fallback:
  "ogTitle (empty_page\<lparr>og_title := Some ''Cool Shoes'', og_image := Some ''/img/shoe.png''\<rparr>) = ''Cool Shoes''"
  "ogImage (empty_page\<lparr>og_title := Some ''Cool Shoes'', og_image := Some ''/img/shoe.png''\<rparr>) = ''/img/shoe.png''"
  "metaPrice (empty_page\<lparr>og_title := Some ''Cool Shoes'', og_image := Some ''/img/shoe.png''\<rparr>) = ''''"
  "metaCurrency (empty_page\<lparr>og_title := Some ''Cool Shoes'', og_image := Some ''/img/shoe.png''\<rparr>) = ''''"
  by (simp_all add: ogTitle_def ogImage_def metaPrice_def metaCurrency_def empty_page_def
      trim_def trimStart_def trimEnd_def js_whitespace_def strip_leading.simps)

lemma extractCurrencyLoose_Nil: "extractCurrencyLoose '''' = None"
  by (simp add: extractCurrencyLoose_def toUpperCase_def euro_sign_def pound_sign_def)

subsection \<open>Errors\<close>





lemma absUrl_Nil: "absUrl rt url '''' = ''''"
  by (simp add: absUrl_def)



subsection \<open>The widget example\<close>

lemma trim_Widget: "trim ''Widget'' = ''Widget''"
  by (simp add: trim_def trimStart_def trimEnd_def js_whitespace_def strip_leading.simps)

lemma number_19_99: "toNumberOrNull rt (Some (JStr ''19,99'')) = Inr (Some (1999 / 100))"
  by (simp add: toNumberOrNull_JStr price_chars_def is_digit_def normalized_def
      Number_of_string_def digits_value_def double_overflow_def finite_or_null_def)

lemma widget_nodes:
  "flattenJsonLd widget_json
     = [widget_json, JObj [(''price'', JStr ''19,99''), (''priceCurrency'', JStr ''EUR'')]]"
  by (simp add: flattenJsonLd_def widget_json_def walk.simps)

lemma widget_products:
  "filter_products rt [widget_json, JObj [(''price'', JStr ''19,99''), (''priceCurrency'', JStr ''EUR'')]]
     = Inr [widget_json]"
  by (simp add: widget_json_def isType_def toLowerCase_def lower_char_def)

lemma widget_visit:
  "visit rt initial widget_json
     = (\<lparr>title = ''Widget'', imageUrl = ''http://a/x.jpg'', price = Some (1999 / 100),
         currency = Some ''EUR''\<rparr>, Break)"
proof -
  have t: "set_title rt initial widget_json = (initial\<lparr>title := ''Widget''\<rparr>, None)"
    by (simp add: set_title_def widget_json_def initial_def trim_Widget)
  have i: "set_image (initial\<lparr>title := ''Widget''\<rparr>) widget_json
      = initial\<lparr>title := ''Widget'', imageUrl := ''http://a/x.jpg''\<rparr>"
    by (simp add: set_image_def widget_json_def initial_def)
  have o: "set_offer rt (initial\<lparr>title := ''Widget'', imageUrl := ''http://a/x.jpg''\<rparr>) widget_json
      = (\<lparr>title = ''Widget'', imageUrl = ''http://a/x.jpg'', price = Some (1999 / 100),
          currency = Some ''EUR''\<rparr>, None)"
    by (simp add: set_offer_def offer_of_def widget_json_def initial_def nullish_or_def number_19_99)
  show ?thesis
    by (simp add: visit_def t i o del: not_None_eq)
qed

lemma widget_block:
  assumes "JSON_parse rt raw = Inr widget_json"
  shows "script_block rt initial raw
     = \<lparr>title = ''Widget'', imageUrl = ''http://a/x.jpg'', price = Some (1999 / 100),
        currency = Some ''EUR''\<rparr>"
proof -
  have "scan rt initial [widget_json]
      = (\<lparr>title = ''Widget'', imageUrl = ''http://a/x.jpg'', price = Some (1999 / 100),
          currency = Some ''EUR''\<rparr>, None)"
    by (simp add: widget_visit)
  then show ?thesis
    unfolding script_block_def Let_def
    by (simp only: assms widget_nodes widget_products sum.case list.distinct if_True
        not_False_eq_True fst_conv)
qed

lemma pickFirst_example:
  "pickFirst [Some ''http://a/x.jpg'', Some og_i] = ''http://a/x.jpg''"
  by (simp add: trim_def trimStart_def trimEnd_def js_whitespace_def strip_leading.simps)

lemma widget_result:
  assumes "ld_json_scripts (cheerio_load rt html) = [raw]"
    and "JSON_parse rt raw = Inr widget_json"
    and "URL_href rt ''http://a/x.jpg'' url = Inr ''http://a/x.jpg''"
  shows "parseFromHtml rt url html
     = Inr \<lparr>title = ''Widget'', imageUrl = ''http://a/x.jpg'', price = Some (1999 / 100),
            currency = Some ''EUR''\<rparr>"
proof -
  from assms(1,2) have "json_ld rt (ld_json_scripts (cheerio_load rt html))
      = \<lparr>title = ''Widget'', imageUrl = ''http://a/x.jpg'', price = Some (1999 / 100),
         currency = Some ''EUR''\<rparr>"
    by (simp add: json_ld_def widget_block)
  with assms(3) show ?thesis
    by (simp add: parseFromHtml_result Let_def pickFirst_example absUrl_def del: pickFirst.simps)
qed

text \<open>
  C3. For a document with one structured-data script block, whose text parses to the object
  with type "Product", name "Widget", image ["http://a/x.jpg","http://a/y.jpg"] and offer
  {price: "19,99", priceCurrency: "EUR"}, extraction returns exactly {title: "Widget",
  imageUrl: "http://a/x.jpg", price: 19.99, currency: "EUR"}, whatever the meta tags of the
  document are. The URL class resolves the absolute image reference to itself.
\<close>

theorem widget_extraction:
  assumes "ld_json_scripts (cheerio_load rt html) = [raw]"
    and "JSON_parse rt raw = Inr widget_json"
    and "URL_href rt ''http://a/x.jpg'' url = Inr ''http://a/x.jpg''"
  shows "parseFromHtml rt url html
     = Inr \<lparr>title = ''Widget'', imageUrl = ''http://a/x.jpg'', price = Some (1999 / 100),
            currency = Some ''EUR''\<rparr>"
  using assms by (rule widget_result)

theorem widget_extraction_witness:
  "ld_json_scripts (cheerio_load example_runtime (html_with_script widget_script)) = [widget_script]
   \<and> JSON_parse example_runtime widget_script = Inr widget_json
   \<and> URL_href example_runtime ''http://a/x.jpg'' shop_url = Inr ''http://a/x.jpg''
   \<and> parseFromHtml example_runtime shop_url (html_with_script widget_script)
       = Inr \<lparr>title = ''Widget'', imageUrl = ''http://a/x.jpg'', price = Some (1999 / 100),
              currency = Some ''EUR''\<rparr>"
proof -
  have 1: "ld_json_scripts (cheerio_load example_runtime (html_with_script widget_script)) = [widget_script]"
    by (simp add: example_load)
  note 2 = example_parse(1) and 3 = example_href(1)
  from widget_extraction [OF 1 2 3] 1 2 3 show ?thesis by simp
qed

subsection \<open>The Open Graph example and URL resolution\<close>






subsection \<open>The currency of the record\<close>

lemma extractCurrencyLoose_codes:
  "extractCurrencyLoose s = Some c \<Longrightarrow> c = ''EUR'' \<or> c = ''USD'' \<or> c = ''GBP''"
  by (auto simp: extractCurrencyLoose_def Let_def split: if_splits)

lemma number_5: "toNumberOrNull rt (Some (JStr ''5'')) = Inr (Some 5)"
  by (simp add: toNumberOrNull_JStr price_chars_def is_digit_def normalized_def
      Number_of_string_def digits_value_def double_overflow_def finite_or_null_def)

lemma euros_block:
  assumes "JSON_parse rt raw = Inr euros_json"
  shows "script_block rt initial raw
     = \<lparr>title = '''', imageUrl = '''', price = Some 5, currency = Some ''euros''\<rparr>"
proof -
  have n: "flattenJsonLd euros_json
      = [euros_json, JObj [(''price'', JStr ''5''), (''priceCurrency'', JStr ''euros'')]]"
    by (simp add: flattenJsonLd_def euros_json_def walk.simps)
  have p: "filter_products rt
        [euros_json, JObj [(''price'', JStr ''5''), (''priceCurrency'', JStr ''euros'')]]
      = Inr [euros_json]"
    by (simp add: euros_json_def isType_def toLowerCase_def lower_char_def)
  have t: "set_title rt initial euros_json = (initial, None)"
    by (simp add: set_title_def euros_json_def)
  have i: "set_image initial euros_json = initial"
    by (simp add: set_image_def euros_json_def)
  have o: "set_offer rt initial euros_json
      = (\<lparr>title = '''', imageUrl = '''', price = Some 5, currency = Some ''euros''\<rparr>, None)"
    by (simp add: set_offer_def offer_of_def euros_json_def initial_def nullish_or_def number_5)
  have "visit rt initial euros_json
      = (\<lparr>title = '''', imageUrl = '''', price = Some 5, currency = Some ''euros''\<rparr>, Normal)"
    by (simp add: visit_def t i o del: not_None_eq)
  then have "scan rt initial [euros_json]
      = (\<lparr>title = '''', imageUrl = '''', price = Some 5, currency = Some ''euros''\<rparr>, None)"
    by simp
  then show ?thesis
    unfolding script_block_def Let_def
    by (simp only: assms n p sum.case list.distinct if_True not_False_eq_True fst_conv)
qed

lemma euros_result:
  "parseFromHtml example_runtime shop_url (html_with_script euros_script)
     = Inr \<lparr>title = '''', imageUrl = '''', price = Some 5, currency = Some ''euros''\<rparr>"
proof -
  have "json_ld example_runtime
          (ld_json_scripts (cheerio_load example_runtime (html_with_script euros_script)))
      = \<lparr>title = '''', imageUrl = '''', price = Some 5, currency = Some ''euros''\<rparr>"
    by (simp add: example_load json_ld_def euros_block [OF example_parse(2)])
  moreover have "ogTitle (empty_page\<lparr>ld_json_scripts := [euros_script]\<rparr>) = ''''"
    "ogImage (empty_page\<lparr>ld_json_scripts := [euros_script]\<rparr>) = ''''"
    by (simp_all add: ogTitle_def ogImage_def empty_page_def trim_Nil)
  ultimately show ?thesis
    by (simp add: parseFromHtml_result Let_def example_load trim_Nil absUrl_Nil)
qed

text \<open>
  C4 as stated (whenever the currency of the record is present it is a three-letter currency
  code) fails: the currency code of an offer is copied as it is written.
\<close>

theorem currency_code_counterexample:
  "parseFromHtml example_runtime shop_url (html_with_script euros_script)
     = Inr \<lparr>title = '''', imageUrl = '''', price = Some 5, currency = Some ''euros''\<rparr>
   \<and> \<not> is_currency_code ''euros''"
  by (simp add: euros_result is_currency_code_def)

text \<open>
  C4, amended. Whenever the currency of the record is present it is a non-empty string: the
  currency the scan of the script blocks found, else the trimmed currency meta string, else
  the detector's answer; it is one of the three-letter codes EUR, USD, GBP when it comes
  from neither the script blocks nor the currency meta string.
\<close>

theorem currency_present:
  "\<exists>p. parseFromHtml rt url html = Inr p
     \<and> currency p \<noteq> Some ''''
     \<and> (currency (json_ld rt (ld_json_scripts (cheerio_load rt html))) = None
          \<and> metaCurrency (cheerio_load rt html) = '''' \<and> currency p = Some c
        \<longrightarrow> c \<in> {''EUR'', ''USD'', ''GBP''} \<and> is_currency_code c)"
proof -
  let ?pg = "cheerio_load rt html"
  let ?st = "json_ld rt (ld_json_scripts ?pg)"
  let ?cur = "case currency ?st of Some c \<Rightarrow> Some c
              | None \<Rightarrow> if metaCurrency ?pg \<noteq> '''' then Some (trim (metaCurrency ?pg))
                        else extractCurrencyLoose (metaPrice ?pg)"
  have ok: "currency ?st \<noteq> Some ''''"
    using json_ld_ok [of rt "ld_json_scripts ?pg"] by (simp add: variables_ok_def)
  have det: "extractCurrencyLoose (metaPrice ?pg) \<noteq> Some ''''"
    using extractCurrencyLoose_codes [of "metaPrice ?pg" "''''"] by auto
  have nonempty: "?cur \<noteq> Some ''''"
    using ok det by (auto simp: trim_fallback split: option.splits)
  have codes: "c \<in> {''EUR'', ''USD'', ''GBP''} \<and> is_currency_code c"
    if "extractCurrencyLoose (metaPrice ?pg) = Some c"
  proof -
    from that have "c = ''EUR'' \<or> c = ''USD'' \<or> c = ''GBP''"
      by (rule extractCurrencyLoose_codes)
    then show ?thesis
      by (auto simp: is_currency_code_def)
  qed
  have "currency \<lparr>title = t, imageUrl = i, price = pr, currency = ?cur\<rparr> \<noteq> Some ''''
     \<and> (currency ?st = None \<and> metaCurrency ?pg = ''''
          \<and> currency \<lparr>title = t, imageUrl = i, price = pr, currency = ?cur\<rparr> = Some c
        \<longrightarrow> c \<in> {''EUR'', ''USD'', ''GBP''} \<and> is_currency_code c)" for t i pr
  proof (rule conjI)
    show "currency \<lparr>title = t, imageUrl = i, price = pr, currency = ?cur\<rparr> \<noteq> Some ''''"
      using nonempty by simp
  next
    show "currency ?st = None \<and> metaCurrency ?pg = ''''
          \<and> currency \<lparr>title = t, imageUrl = i, price = pr, currency = ?cur\<rparr> = Some c
        \<longrightarrow> c \<in> {''EUR'', ''USD'', ''GBP''} \<and> is_currency_code c"
    proof
      assume "currency ?st = None \<and> metaCurrency ?pg = ''''
          \<and> currency \<lparr>title = t, imageUrl = i, price = pr, currency = ?cur\<rparr> = Some c"
      then have "extractCurrencyLoose (metaPrice ?pg) = Some c" by auto
      then show "c \<in> {''EUR'', ''USD'', ''GBP''} \<and> is_currency_code c" by (rule codes)
    qed
  qed
  then show ?thesis
    unfolding parseFromHtml_result Let_def by blast
qed

subsection \<open>The currency during the scan\<close>

lemma set_title_keeps:
  "price (fst (set_title rt st n)) = price st" "currency (fst (set_title rt st n)) = currency st"
  "imageUrl (fst (set_title rt st n)) = imageUrl st"
  by (auto simp: set_title_def split: option.splits sum.splits)

lemma set_image_keeps:
  "price (set_image st n) = price st" "currency (set_image st n) = currency st"
  "title (set_image st n) = title st"
  by (auto simp: set_image_def split: option.splits json.splits list.splits)

lemma set_offer_priced: "price st \<noteq> None \<Longrightarrow> set_offer rt st n = (st, None)"
  by (auto simp: set_offer_def split: option.splits)

lemma visit_priced:
  assumes "price st \<noteq> None"
  shows "price (fst (visit rt st n)) = price st \<and> currency (fst (visit rt st n)) = currency st"
proof -
  obtain st1 e1 where t: "set_title rt st n = (st1, e1)" by (cases "set_title rt st n")
  with set_title_keeps [of rt st n] have k1: "price st1 = price st" "currency st1 = currency st"
    by simp_all
  with assms have "price (set_image st1 n) \<noteq> None"
    by (simp add: set_image_keeps)
  then have o: "set_offer rt (set_image st1 n) n = (set_image st1 n, None)"
    by (rule set_offer_priced)
  from t o k1 show ?thesis
    by (cases e1) (simp_all add: visit_def Let_def set_image_keeps)
qed

lemma scan_priced:
  "price st \<noteq> None \<Longrightarrow>
   price (fst (scan rt st ns)) = price st \<and> currency (fst (scan rt st ns)) = currency st"
proof (induction ns arbitrary: st)
  case Nil
  then show ?case by simp
next
  case (Cons n ns)
  obtain st' c where v: "visit rt st n = (st', c)" by (cases "visit rt st n")
  with visit_priced [OF Cons.prems, of rt n]
  have k: "price st' = price st" "currency st' = currency st" by simp_all
  with Cons.prems have "price st' \<noteq> None" by simp
  from Cons.IH [OF this] v k show ?case
    by (cases c) simp_all
qed

lemma visit_completion:
  assumes "visit rt st n = (st', k)" and "k = Normal \<or> k = Break"
  shows "k = Break \<longleftrightarrow> title st' \<noteq> '''' \<and> imageUrl st' \<noteq> '''' \<and> price st' \<noteq> None"
proof -
  obtain st1 e1 where t: "set_title rt st n = (st1, e1)" by (cases "set_title rt st n")
  obtain st3 e3 where o: "set_offer rt (set_image st1 n) n = (st3, e3)"
    by (cases "set_offer rt (set_image st1 n) n")
  from assms t o show ?thesis
    by (cases e1; cases e3) (auto simp: visit_def Let_def split: if_splits)
qed

lemma visit_applies_currency:
  assumes "visit rt st n = (st', k)" and "k = Normal \<or> k = Break"
    and "price st = None" and "currency st = None"
    and "offer_of n = Some offer" and "truthy offer"
    and "get_prop offer ''priceCurrency'' = Some (JStr code)" and "code \<noteq> ''''"
  shows "currency st' = Some code"
proof -
  obtain st1 e1 where t: "set_title rt st n = (st1, e1)" by (cases "set_title rt st n")
  let ?st2 = "set_image st1 n"
  obtain st3 e3 where o: "set_offer rt ?st2 n = (st3, e3)"
    by (cases "set_offer rt ?st2 n")
  from assms(1,2) t o have none: "e1 = None" "e3 = None" and st': "st' = st3"
    by (cases e1; cases e3; auto simp: visit_def Let_def split: if_splits)+
  from t set_title_keeps [of rt st n] assms(3,4)
  have "price ?st2 = None" "currency ?st2 = None"
    by (simp_all add: set_image_keeps)
  with o none(2) assms(5-8) have "currency st3 = Some code"
    by (auto simp: set_offer_def Let_def split: sum.splits)
  with st' show ?thesis by simp
qed

lemma number_10_12:
  "toNumberOrNull rt (Some (JStr ''10'')) = Inr (Some 10)"
  "toNumberOrNull rt (Some (JStr ''12'')) = Inr (Some 12)"
  by (simp_all add: toNumberOrNull_JStr price_chars_def is_digit_def normalized_def
      Number_of_string_def digits_value_def double_overflow_def finite_or_null_def)

lemma priced_visit:
  "visit rt initial priced_json
     = (\<lparr>title = '''', imageUrl = '''', price = Some 10, currency = None\<rparr>, Normal)"
proof -
  have t: "set_title rt initial priced_json = (initial, None)"
    by (simp add: set_title_def priced_json_def)
  have i: "set_image initial priced_json = initial"
    by (simp add: set_image_def priced_json_def)
  have o: "set_offer rt initial priced_json
      = (\<lparr>title = '''', imageUrl = '''', price = Some 10, currency = None\<rparr>, None)"
    by (simp add: set_offer_def offer_of_def priced_json_def initial_def nullish_or_def number_10_12)
  show ?thesis
    by (simp add: visit_def t i o del: not_None_eq)
qed

lemma priced_eur_visit:
  "visit rt initial priced_eur_json
     = (\<lparr>title = '''', imageUrl = '''', price = Some 12, currency = Some ''EUR''\<rparr>, Normal)"
proof -
  have t: "set_title rt initial priced_eur_json = (initial, None)"
    by (simp add: set_title_def priced_eur_json_def)
  have i: "set_image initial priced_eur_json = initial"
    by (simp add: set_image_def priced_eur_json_def)
  have o: "set_offer rt initial priced_eur_json
      = (\<lparr>title = '''', imageUrl = '''', price = Some 12, currency = Some ''EUR''\<rparr>, None)"
    by (simp add: set_offer_def offer_of_def priced_eur_json_def initial_def nullish_or_def
        number_10_12)
  show ?thesis
    by (simp add: visit_def t i o del: not_None_eq)
qed

lemma priced_then_eur_visit:
  "visit rt \<lparr>title = '''', imageUrl = '''', price = Some 10, currency = None\<rparr> priced_eur_json
     = (\<lparr>title = '''', imageUrl = '''', price = Some 10, currency = None\<rparr>, Normal)"
proof -
  let ?st = "\<lparr>title = '''', imageUrl = '''', price = Some 10, currency = None\<rparr>"
  have t: "set_title rt ?st priced_eur_json = (?st, None)"
    by (simp add: set_title_def priced_eur_json_def)
  have i: "set_image ?st priced_eur_json = ?st"
    by (simp add: set_image_def priced_eur_json_def)
  have o: "set_offer rt ?st priced_eur_json = (?st, None)"
    by (rule set_offer_priced) simp
  show ?thesis
    by (simp add: visit_def t i o del: not_None_eq)
qed

lemma two_offers_scan:
  "scan rt initial [priced_json, priced_eur_json]
     = (\<lparr>title = '''', imageUrl = '''', price = Some 10, currency = None\<rparr>, None)"
  by (simp add: priced_visit priced_then_eur_visit)

lemma two_offers_candidates:
  "flattenJsonLd two_offers_json
     = [priced_json, JObj [(''price'', JStr ''10'')],
        priced_eur_json, JObj [(''price'', JStr ''12''), (''priceCurrency'', JStr ''EUR'')]]"
  "filter_products rt
     [priced_json, JObj [(''price'', JStr ''10'')],
      priced_eur_json, JObj [(''price'', JStr ''12''), (''priceCurrency'', JStr ''EUR'')]]
     = Inr [priced_json, priced_eur_json]"
  by (simp_all add: flattenJsonLd_def two_offers_json_def priced_json_def priced_eur_json_def
      walk.simps isType_def toLowerCase_def lower_char_def)

lemma two_offers_result:
  "parseFromHtml example_runtime shop_url (html_with_script two_offers_script)
     = Inr \<lparr>title = '''', imageUrl = '''', price = Some 10, currency = None\<rparr>"
proof -
  have "script_block example_runtime initial two_offers_script
      = \<lparr>title = '''', imageUrl = '''', price = Some 10, currency = None\<rparr>"
    unfolding script_block_def Let_def
    by (simp only: example_parse two_offers_candidates two_offers_scan sum.case list.distinct
        if_True not_False_eq_True fst_conv)
  then have "json_ld example_runtime
          (ld_json_scripts (cheerio_load example_runtime (html_with_script two_offers_script)))
      = \<lparr>title = '''', imageUrl = '''', price = Some 10, currency = None\<rparr>"
    by (simp add: example_load json_ld_def)
  moreover have "ogTitle (empty_page\<lparr>ld_json_scripts := [two_offers_script]\<rparr>) = ''''"
    "ogImage (empty_page\<lparr>ld_json_scripts := [two_offers_script]\<rparr>) = ''''"
    "metaPrice (empty_page\<lparr>ld_json_scripts := [two_offers_script]\<rparr>) = ''''"
    "metaCurrency (empty_page\<lparr>ld_json_scripts := [two_offers_script]\<rparr>) = ''''"
    by (simp_all add: ogTitle_def ogImage_def metaPrice_def metaCurrency_def empty_page_def trim_Nil)
  ultimately show ?thesis
    by (simp add: parseFromHtml_result Let_def example_load trim_Nil absUrl_Nil
        extractCurrencyLoose_Nil)
qed

text \<open>
  C1 as stated (an offer's currency code is applied whenever currency is not already set by
  an earlier candidate, even if the candidate that set the price carried no currency) fails.
  The candidates are two products; the first offer has a price and no currency, the second a
  price and the currency EUR. No candidate is skipped, title and image staying unset, and no
  earlier candidate sets a currency; yet the currency of the second offer is not applied.
\<close>

theorem currency_pass_counterexample:
  "offer_of priced_json = Some (JObj [(''price'', JStr ''10'')])
   \<and> offer_of priced_eur_json = Some (JObj [(''price'', JStr ''12''), (''priceCurrency'', JStr ''EUR'')])
   \<and> scan example_runtime initial [priced_json]
       = (\<lparr>title = '''', imageUrl = '''', price = Some 10, currency = None\<rparr>, None)
   \<and> scan example_runtime initial [priced_json, priced_eur_json]
       = (\<lparr>title = '''', imageUrl = '''', price = Some 10, currency = None\<rparr>, None)
   \<and> parseFromHtml example_runtime shop_url (html_with_script two_offers_script)
       = Inr \<lparr>title = '''', imageUrl = '''', price = Some 10, currency = None\<rparr>"
proof -
  have 1: "offer_of priced_json = Some (JObj [(''price'', JStr ''10'')])"
    by (simp add: offer_of_def priced_json_def)
  have 2: "offer_of priced_eur_json
      = Some (JObj [(''price'', JStr ''12''), (''priceCurrency'', JStr ''EUR'')])"
    by (simp add: offer_of_def priced_eur_json_def)
  have 3: "scan example_runtime initial [priced_json]
       = (\<lparr>title = '''', imageUrl = '''', price = Some 10, currency = None\<rparr>, None)"
    by (simp add: priced_visit)
  from 1 2 3 two_offers_scan [of example_runtime] two_offers_result show ?thesis
    by (simp only: simp_thms)
qed

text \<open>
  C1, amended. When scanning the candidate sequence in order, the scan stops as soon as
  title, image and price are all set, with no further pass for currency. An offer's currency
  code is applied when its candidate is visited while price and currency are both still
  unset (and the candidate raises no error); once a price is set, the price and the
  currency stay as they are whatever the later candidates carry.
\<close>

theorem currency_with_first_price:
  "(visit rt st n = (st', Break) \<longrightarrow>
      title st' \<noteq> '''' \<and> imageUrl st' \<noteq> '''' \<and> price st' \<noteq> None
      \<and> scan rt st (n # ns) = (st', None))
   \<and> (visit rt st n = (st', Normal) \<longrightarrow>
      \<not> (title st' \<noteq> '''' \<and> imageUrl st' \<noteq> '''' \<and> price st' \<noteq> None)
      \<and> scan rt st (n # ns) = scan rt st' ns)
   \<and> (visit rt st n = (st', k) \<and> (k = Normal \<or> k = Break)
       \<and> price st = None \<and> currency st = None
       \<and> offer_of n = Some offer \<and> truthy offer
       \<and> get_prop offer ''priceCurrency'' = Some (JStr code) \<and> code \<noteq> ''''
      \<longrightarrow> currency st' = Some code)
   \<and> (price st \<noteq> None \<longrightarrow>
      price (fst (scan rt st ns)) = price st \<and> currency (fst (scan rt st ns)) = currency st)"
proof (intro conjI)
  show "visit rt st n = (st', Break) \<longrightarrow>
      title st' \<noteq> '''' \<and> imageUrl st' \<noteq> '''' \<and> price st' \<noteq> None
      \<and> scan rt st (n # ns) = (st', None)"
    using visit_completion [of rt st n st' Break] by simp
next
  show "visit rt st n = (st', Normal) \<longrightarrow>
      \<not> (title st' \<noteq> '''' \<and> imageUrl st' \<noteq> '''' \<and> price st' \<noteq> None)
      \<and> scan rt st (n # ns) = scan rt st' ns"
    using visit_completion [of rt st n st' Normal] by simp
next
  show "visit rt st n = (st', k) \<and> (k = Normal \<or> k = Break)
       \<and> price st = None \<and> currency st = None
       \<and> offer_of n = Some offer \<and> truthy offer
       \<and> get_prop offer ''priceCurrency'' = Some (JStr code) \<and> code \<noteq> ''''
      \<longrightarrow> currency st' = Some code"
    by (intro impI, elim conjE, rule visit_applies_currency [of rt st n st' k offer code]; assumption)
next
  show "price st \<noteq> None \<longrightarrow>
      price (fst (scan rt st ns)) = price st \<and> currency (fst (scan rt st ns)) = currency st"
    using scan_priced [of st rt ns] by blast
qed

subsection \<open>The theorems at the example documents\<close>

lemma dollar_fallback:
  "ogTitle (empty_page\<lparr>price_amount_property := Some ''$19.99''\<rparr>) = ''''"
  "ogImage (empty_page\<lparr>price_amount_property := Some ''$19.99''\<rparr>) = ''''"
  "metaPrice (empty_page\<lparr>price_amount_property := Some ''$19.99''\<rparr>) = ''$19.99''"
  "metaCurrency (empty_page\<lparr>price_amount_property := Some ''$19.99''\<rparr>) = ''''"
  by (simp_all add: ogTitle_def ogImage_def metaPrice_def metaCurrency_def empty_page_def
      trim_def trimStart_def trimEnd_def js_whitespace_def strip_leading.simps)

lemma dollar_price:
  "price_chars ''$19.99'' = ''19.99''"
  "finite_or_null (Number_of_string (normalized ''19.99'')) = Some (1999 / 100)"
  "extractCurrencyLoose ''$19.99'' = Some ''USD''"
  by (simp_all add: price_chars_def is_digit_def normalized_def Number_of_string_def
      digits_value_def double_overflow_def finite_or_null_def extractCurrencyLoose_def
      toUpperCase_def upper_char_def euro_sign_def)

lemma dollar_result:
  "parseFromHtml example_runtime shop_url dollar_html
     = Inr \<lparr>title = '''', imageUrl = '''', price = Some (1999 / 100), currency = Some ''USD''\<rparr>"
proof -
  have "json_ld example_runtime (ld_json_scripts (cheerio_load example_runtime dollar_html)) = initial"
    by (simp add: example_load empty_page_def json_ld_def)
  then show ?thesis
    by (simp add: parseFromHtml_result Let_def example_load dollar_fallback dollar_price
        initial_def trim_Nil absUrl_Nil)
qed



text \<open>
  The merge step at three documents: only Open Graph tags, only a price meta tag
  "$19.99" (the price is normalized and the detector finds USD), and a structured-data block.
\<close>

theorem merge_precedence_witness:
  "(\<exists>p. parseFromHtml example_runtime shop_url shoes_html = Inr p
       \<and> title p = ''Cool Shoes'' \<and> price p = None \<and> currency p = None)
   \<and> (\<exists>p. parseFromHtml example_runtime shop_url dollar_html = Inr p
       \<and> title p = '''' \<and> price p = Some (1999 / 100) \<and> currency p = Some ''USD'')
   \<and> (\<exists>p. parseFromHtml example_runtime shop_url (html_with_script widget_script) = Inr p
       \<and> title p = ''Widget'' \<and> price p = Some (1999 / 100) \<and> currency p = Some ''EUR'')"
proof -
  have st: "json_ld example_runtime (ld_json_scripts (cheerio_load example_runtime shoes_html)) = initial"
    by (simp add: example_load empty_page_def json_ld_def)
  have n: "toNumberOrNull example_runtime (Some (JStr '''')) = Inr None"
    by (simp add: toNumberOrNull_JStr price_chars_def)
  from merge_precedence [of example_runtime shop_url shoes_html]
  have 1: "\<exists>p. parseFromHtml example_runtime shop_url shoes_html = Inr p
       \<and> title p = ''Cool Shoes'' \<and> price p = None \<and> currency p = None"
    unfolding st by (auto simp: example_load example_fallback initial_def n trim_Nil extractCurrencyLoose_Nil)
  have 2: "\<exists>p. parseFromHtml example_runtime shop_url dollar_html = Inr p
       \<and> title p = '''' \<and> price p = Some (1999 / 100) \<and> currency p = Some ''USD''"
    by (simp add: dollar_result)
  have "parseFromHtml example_runtime shop_url (html_with_script widget_script)
       = Inr \<lparr>title = ''Widget'', imageUrl = ''http://a/x.jpg'', price = Some (1999 / 100),
              currency = Some ''EUR''\<rparr>"
    by (rule widget_result [OF _ example_parse(1) example_href(1)]) (simp add: example_load)
  then have 3: "\<exists>p. parseFromHtml example_runtime shop_url (html_with_script widget_script) = Inr p
       \<and> title p = ''Widget'' \<and> price p = Some (1999 / 100) \<and> currency p = Some ''EUR''"
    by simp
  from 1 2 3 show ?thesis by blast
qed

text \<open>
  The currency of the record at the document whose offer carries the currency "euros" and at
  the document with only the price meta tag "$19.99", where the currency is the detector's.
\<close>

theorem currency_present_witness:
  "(\<exists>p. parseFromHtml example_runtime shop_url (html_with_script euros_script) = Inr p
       \<and> currency p = Some ''euros'' \<and> currency p \<noteq> Some '''')
   \<and> (\<exists>p. parseFromHtml example_runtime shop_url dollar_html = Inr p
       \<and> currency (json_ld example_runtime
                      (ld_json_scripts (cheerio_load example_runtime dollar_html))) = None
       \<and> metaCurrency (cheerio_load example_runtime dollar_html) = ''''
       \<and> currency p = Some ''USD'' \<and> is_currency_code ''USD'')"
proof -
  from currency_present [of example_runtime shop_url "html_with_script euros_script" "''euros''"]
  obtain p where "parseFromHtml example_runtime shop_url (html_with_script euros_script) = Inr p"
    and "currency p \<noteq> Some ''''"
    by blast
  then have 1: "\<exists>p. parseFromHtml example_runtime shop_url (html_with_script euros_script) = Inr p
       \<and> currency p = Some ''euros'' \<and> currency p \<noteq> Some ''''"
    by (auto simp: euros_result)
  have st: "currency (json_ld example_runtime
                      (ld_json_scripts (cheerio_load example_runtime dollar_html))) = None"
    by (simp add: example_load empty_page_def json_ld_def initial_def)
  have mc: "metaCurrency (cheerio_load example_runtime dollar_html) = ''''"
    by (simp only: example_load dollar_fallback)
  from currency_present [of example_runtime shop_url dollar_html "''USD''"]
  obtain q where q: "parseFromHtml example_runtime shop_url dollar_html = Inr q"
    and c: "currency (json_ld example_runtime
                      (ld_json_scripts (cheerio_load example_runtime dollar_html))) = None
          \<and> metaCurrency (cheerio_load example_runtime dollar_html) = '''' \<and> currency q = Some ''USD''
        \<longrightarrow> ''USD'' \<in> {''EUR'', ''USD'', ''GBP''} \<and> is_currency_code ''USD''"
    by blast
  from q have "currency q = Some ''USD''"
    by (auto simp: dollar_result)
  with q c st mc have 2: "\<exists>p. parseFromHtml example_runtime shop_url dollar_html = Inr p
       \<and> currency (json_ld example_runtime
                      (ld_json_scripts (cheerio_load example_runtime dollar_html))) = None
       \<and> metaCurrency (cheerio_load example_runtime dollar_html) = ''''
       \<and> currency p = Some ''USD'' \<and> is_currency_code ''USD''"
    by blast
  from 1 2 show ?thesis by blast
qed


text \<open>
  The scan at the examples: the widget completes the three fields and ends the scan; a
  priced offer with a currency sets both from the initial variables; after a price of 10 the
  currency of a later offer is not applied.
\<close>

theorem currency_with_first_price_witness:
  "visit example_runtime initial widget_json
     = (\<lparr>title = ''Widget'', imageUrl = ''http://a/x.jpg'', price = Some (1999 / 100),
         currency = Some ''EUR''\<rparr>, Break)
   \<and> scan example_runtime initial [widget_json, priced_json]
       = (\<lparr>title = ''Widget'', imageUrl = ''http://a/x.jpg'', price = Some (1999 / 100),
           currency = Some ''EUR''\<rparr>, None)
   \<and> visit example_runtime initial priced_eur_json
       = (\<lparr>title = '''', imageUrl = '''', price = Some 12, currency = Some ''EUR''\<rparr>, Normal)
   \<and> scan example_runtime initial [priced_eur_json, priced_json]
       = scan example_runtime
           \<lparr>title = '''', imageUrl = '''', price = Some 12, currency = Some ''EUR''\<rparr> [priced_json]
   \<and> price initial = None \<and> currency initial = None
   \<and> offer_of priced_eur_json
       = Some (JObj [(''price'', JStr ''12''), (''priceCurrency'', JStr ''EUR'')])
   \<and> truthy (JObj [(''price'', JStr ''12''), (''priceCurrency'', JStr ''EUR'')])
   \<and> get_prop (JObj [(''price'', JStr ''12''), (''priceCurrency'', JStr ''EUR'')]) ''priceCurrency''
       = Some (JStr ''EUR'')
   \<and> currency (fst (visit example_runtime initial priced_eur_json)) = Some ''EUR''
   \<and> currency (fst (scan example_runtime initial [priced_eur_json, priced_json])) = Some ''EUR''
   \<and> currency (fst (scan example_runtime
                       \<lparr>title = '''', imageUrl = '''', price = Some 10, currency = None\<rparr>
                       [priced_eur_json])) = None"
proof -
  let ?eur = "\<lparr>title = '''', imageUrl = '''', price = Some 12, currency = Some ''EUR''\<rparr>"
  let ?ten = "\<lparr>title = '''', imageUrl = '''', price = Some 10, currency = None\<rparr>"
  let ?widget = "\<lparr>title = ''Widget'', imageUrl = ''http://a/x.jpg'', price = Some (1999 / 100),
         currency = Some ''EUR''\<rparr>"
  let ?offer = "JObj [(''price'', JStr ''12''), (''priceCurrency'', JStr ''EUR'')]"
  note w = widget_visit [of example_runtime]
  note v = priced_eur_visit [of example_runtime]
  have i: "price initial = None" "currency initial = None"
    by (simp_all add: initial_def)
  have o: "offer_of priced_eur_json = Some ?offer" "truthy ?offer"
    "get_prop ?offer ''priceCurrency'' = Some (JStr ''EUR'')" "''EUR'' \<noteq> ''''"
    by (simp_all add: offer_of_def priced_eur_json_def)
  from currency_with_first_price
         [of example_runtime initial widget_json ?widget "[priced_json]" Break ?offer "''EUR''"] w
  have 0: "scan example_runtime initial [widget_json, priced_json] = (?widget, None)"
    by blast
  note at_eur = currency_with_first_price
         [of example_runtime initial priced_eur_json ?eur "[priced_json]" Normal ?offer "''EUR''"]
  from at_eur v
  have 1: "scan example_runtime initial [priced_eur_json, priced_json]
       = scan example_runtime ?eur [priced_json]"
    by blast
  from at_eur v i o have "currency ?eur = Some ''EUR''"
    by blast
  with v have 2: "currency (fst (visit example_runtime initial priced_eur_json)) = Some ''EUR''"
    by simp
  from currency_with_first_price
         [of example_runtime ?eur priced_json ?eur "[priced_json]" Normal ?offer "''EUR''"]
  have "currency (fst (scan example_runtime ?eur [priced_json])) = Some ''EUR''"
    by simp
  with 1 have 3: "currency (fst (scan example_runtime initial [priced_eur_json, priced_json])) = Some ''EUR''"
    by simp
  from currency_with_first_price
         [of example_runtime ?ten priced_json ?ten "[priced_eur_json]" Normal ?offer "''EUR''"]
  have 4: "currency (fst (scan example_runtime ?ten [priced_eur_json])) = None"
    by simp
  from w v 0 1 2 3 4 i o(1-3) show ?thesis by blast
qed

subsection \<open>The authorization check\<close>

text \<open>
  C10. When the SCRAPER\_TOKEN environment value is unset or empty, the authorization check
  returns true for every request: the answer does not depend on the Authorization header.
\<close>

theorem authOk_without_token:
  assumes "env = None \<or> env = Some ''''"
  shows "authOk (TOKEN env) req = True \<and> authOk (TOKEN env) req = authOk (TOKEN env) req'"
  using assms by (auto simp: authOk_def TOKEN_def)

theorem authOk_without_token_witness:
  "authOk (TOKEN None) \<lparr>authorization = Some ''Bearer guess''\<rparr> = True
   \<and> authOk (TOKEN (Some '''')) \<lparr>authorization = None\<rparr> = True
   \<and> authOk (TOKEN (Some '''')) \<lparr>authorization = None\<rparr>
       = authOk (TOKEN (Some '''')) \<lparr>authorization = Some ''Bearer ''\<rparr>"
  using authOk_without_token [of None "\<lparr>authorization = Some ''Bearer guess''\<rparr>"]
        authOk_without_token [of "Some ''''" "\<lparr>authorization = None\<rparr>" "\<lparr>authorization = Some ''Bearer ''\<rparr>"]
  by blast

end
